theory Spec2Isabelle
  imports Main
begin

section \<open>The page script \<open>static/script.js\<close>\<close>

text \<open>
  The script keeps four variables (\<open>conn\<close>, \<open>pingInterval\<close>, \<open>pongReceived\<close>,
  \<open>pongTimeoutId\<close>) and registers handlers on the WebSocket it creates, on two buttons
  and on the text field. Every handler is a closure over these shared variables, so a
  handler here is a function from the state to the state. The state holds the script's
  variables, the parts of the page the script reads and writes, and the platform the
  script calls into: the WebSocket objects, the timer table and the clock.
\<close>

subsection \<open>Platform data\<close>

datatype readyState = CONNECTING | OPEN | CLOSING | CLOSED

record websocket =
  url :: string
  readyState :: readyState

text \<open>The functions the script hands to \<open>setTimeout\<close> and \<open>setInterval\<close>. The arrow
  function of \<open>sendPing\<close> captures no local variable, so it is one callback.\<close>

datatype callback = Cb_connect | Cb_sendPing | Cb_pongTimeout

record timer =
  handle :: nat
  due :: nat
  period :: "nat option"
  callback :: callback

datatype error = TypeError | InvalidStateError | InvalidAccessError | SyntaxError

text \<open>
  A child of \<open>#log\<close>. The script makes each one with \<open>$('<div>').html(msg)\<close>, which
  parses the message as HTML. \<open>Text t\<close> is a div that holds exactly the text \<open>t\<close>;
  \<open>Parsed m\<close> is the div that the HTML parser makes of the message \<open>m\<close> when \<open>m\<close> has
  markup in it, and what that div holds is not described further. Markup is taken
  to be inert: adding the entry changes the log and nothing else.
\<close>

datatype entry = Text string | Parsed string

text \<open>A handler either returns or throws; what it wrote before the throw stays written.\<close>

datatype 'a outcome = Returned 'a | Threw error 'a

record state =
  conn :: "nat option"
  pingInterval :: "nat option"
  pongReceived :: bool
  pongTimeoutId :: "nat option"
  logdiv :: "entry list"
  status :: string
  connectLabel :: string
  textval :: string
  https :: bool
  host :: string
  socks :: "websocket list"
  wire :: "(nat \<times> string) list"
  closeReqs :: "(nat \<times> (nat \<times> string) option) list"
  timers :: "timer list"
  nextHandle :: nat
  now :: nat
  uncaught :: "error list"

text \<open>
  \<open>conn\<close> is \<open>None\<close> for \<open>null\<close> and otherwise the index in \<open>socks\<close> of the WebSocket
  object it refers to. \<open>logdiv\<close> is the list of children of \<open>#log\<close>, newest first.
  \<open>wire\<close> lists the frames handed to the network, oldest first, each with the socket
  that carried it; \<open>closeReqs\<close> lists the calls of \<open>close\<close> that started a closing
  handshake, with their code and reason when given. \<open>timers\<close> holds the pending timers
  and \<open>now\<close> the clock in milliseconds. \<open>uncaught\<close> collects the exceptions that
  reached the top of a handler.
\<close>

definition PING_INTERVAL_MS :: nat where
  "PING_INTERVAL_MS = 60000"

definition PONG_TIMEOUT_MS :: nat where
  "PONG_TIMEOUT_MS = 5000"

subsection \<open>Platform operations\<close>

text \<open>A timer handle in a condition: \<open>null\<close> and \<open>0\<close> are falsy.\<close>

definition truthy :: "nat option \<Rightarrow> bool" where
  "truthy v = (case v of None \<Rightarrow> False | Some h \<Rightarrow> h \<noteq> 0)"

definition setTimer :: "callback \<Rightarrow> nat \<Rightarrow> nat option \<Rightarrow> state \<Rightarrow> nat \<times> state" where
  "setTimer cb delay per s =
     (nextHandle s,
      s\<lparr>timers := timers s @
           [\<lparr>handle = nextHandle s, due = now s + delay, period = per, callback = cb\<rparr>],
        nextHandle := Suc (nextHandle s)\<rparr>)"

definition setTimeout :: "callback \<Rightarrow> nat \<Rightarrow> state \<Rightarrow> nat \<times> state" where
  "setTimeout cb delay s = setTimer cb delay None s"

definition setInterval :: "callback \<Rightarrow> nat \<Rightarrow> state \<Rightarrow> nat \<times> state" where
  "setInterval cb delay s = setTimer cb delay (Some delay) s"

text \<open>\<open>clearTimeout\<close> and \<open>clearInterval\<close> share one table of handles; a handle that
  names no pending timer, and \<open>null\<close>, are ignored.\<close>

definition clearTimer :: "nat option \<Rightarrow> state \<Rightarrow> state" where
  "clearTimer v s =
     (case v of
        None \<Rightarrow> s
      | Some h \<Rightarrow> s\<lparr>timers := filter (\<lambda>t. handle t \<noteq> h) (timers s)\<rparr>)"

definition rs :: "nat \<Rightarrow> state \<Rightarrow> readyState" where
  "rs c s = readyState (socks s ! c)"

definition set_rs :: "nat \<Rightarrow> readyState \<Rightarrow> state \<Rightarrow> state" where
  "set_rs c r s = s\<lparr>socks := (socks s)[c := (socks s ! c)\<lparr>readyState := r\<rparr>]\<rparr>"

text \<open>
  \<open>WebSocket.send\<close>: it throws an \<open>InvalidStateError\<close> exception on a socket that is
  still connecting, transmits on an open one, and drops the data on a closing or
  closed one.
\<close>

definition ws_send :: "nat \<Rightarrow> string \<Rightarrow> state \<Rightarrow> state outcome" where
  "ws_send c d s =
     (case rs c s of
        CONNECTING \<Rightarrow> Threw InvalidStateError s
      | OPEN \<Rightarrow> Returned (s\<lparr>wire := wire s @ [(c, d)]\<rparr>)
      | CLOSING \<Rightarrow> Returned s
      | CLOSED \<Rightarrow> Returned s)"

text \<open>
  \<open>WebSocket.close\<close>, following the steps of the \<open>close(code, reason)\<close> method in
  the WebSockets standard that browsers implement. First the arguments are checked:
  a code that is present must be 1000 or lie in 3000..4999, otherwise the call throws
  an \<open>InvalidAccessError\<close> exception; a reason that is present must encode to at most
  123 bytes of UTF-8, otherwise the call throws a \<open>SyntaxError\<close> exception. Then
  nothing happens on a closing or closed socket; any other socket starts closing and
  the request is recorded with the code and reason it was given. \<open>start_close\<close> is
  the second part, \<open>ws_close\<close> the call without arguments (nothing to check) and
  \<open>ws_close_code\<close> the call with a code and a reason.
\<close>

definition start_close :: "nat \<Rightarrow> (nat \<times> string) option \<Rightarrow> state \<Rightarrow> state" where
  "start_close c a s =
     (if rs c s = CLOSING \<or> rs c s = CLOSED then s
      else (set_rs c CLOSING s)\<lparr>closeReqs := closeReqs s @ [(c, a)]\<rparr>)"

definition ws_close :: "nat \<Rightarrow> state \<Rightarrow> state" where
  "ws_close c s = start_close c None s"

definition utf8_length :: "string \<Rightarrow> nat" where
  "utf8_length t = sum_list (map (\<lambda>ch. if (of_char ch :: nat) < 128 then 1 else 2) t)"

definition ws_close_code :: "nat \<Rightarrow> nat \<Rightarrow> string \<Rightarrow> state \<Rightarrow> state outcome" where
  "ws_close_code c code reason s =
     (if \<not> (code = 1000 \<or> (3000 \<le> code \<and> code \<le> 4999)) then Threw InvalidAccessError s
      else if 123 < utf8_length reason then Threw SyntaxError s
      else Returned (start_close c (Some (code, reason)) s))"

subsection \<open>Strings\<close>

text \<open>A character is a code unit below 256. The white space and line terminators of
  \<open>String.prototype.trim\<close> in that range: TAB, LF, VT, FF, CR, SP and NBSP.\<close>

definition is_space :: "char \<Rightarrow> bool" where
  "is_space ch = (of_char ch \<in> {9, 10, 11, 12, 13, 32, 160 :: nat})"

definition trim :: "string \<Rightarrow> string" where
  "trim t = rev (dropWhile is_space (rev (dropWhile is_space t)))"

text \<open>
  A message is plain when the HTML parser takes it as it is: it has no \<open><\<close> (a tag
  would start), no \<open>&\<close> (a character reference would start), no NUL (dropped by the
  parser) and no CR (rewritten to LF). Parsing a plain message gives the div that
  holds that text; any other message gives a div that is only known to come from it.
\<close>

definition plain_text :: "string \<Rightarrow> bool" where
  "plain_text t = list_all (\<lambda>ch. ch \<notin> {CHR ''<'', CHR ''&'', CHR 0x00, CHR 0x0D}) t"

definition html :: "string \<Rightarrow> entry" where
  "html msg = (if plain_text msg then Text msg else Parsed msg)"

definition digit :: "nat \<Rightarrow> char" where
  "digit n = ''0123456789'' ! (n mod 10)"

fun dec :: "nat \<Rightarrow> string" where
  "dec n = (if n < 10 then [digit n] else dec (n div 10) @ [digit n])"

declare dec.simps [simp del]

subsection \<open>The script\<close>

definition log :: "string \<Rightarrow> state \<Rightarrow> state" where
  "log msg s =
     (let l = html msg # logdiv s
      in s\<lparr>logdiv := (if length l > 100 then butlast l else l)\<rparr>)"

definition update_ui :: "state \<Rightarrow> state" where
  "update_ui s =
     (if conn s = None
      then s\<lparr>status := ''disconnected'', connectLabel := ''Connect''\<rparr>
      else s\<lparr>status := ''connected'', connectLabel := ''Disconnect''\<rparr>)"

definition stopPingPong :: "state \<Rightarrow> state" where
  "stopPingPong s =
     (let s1 = (if truthy (pingInterval s)
                then (clearTimer (pingInterval s) s)\<lparr>pingInterval := None\<rparr>
                else s)
      in if truthy (pongTimeoutId s1)
         then (clearTimer (pongTimeoutId s1) s1)\<lparr>pongTimeoutId := None\<rparr>
         else s1)"

definition disconnect :: "state \<Rightarrow> state" where
  "disconnect s =
     (case conn s of
        None \<Rightarrow> s
      | Some c \<Rightarrow>
          update_ui (stopPingPong ((ws_close c (log ''Disconnecting...'' s))\<lparr>conn := None\<rparr>)))"

definition wsUri :: "state \<Rightarrow> string" where
  "wsUri s = (if https s then ''wss://'' else ''ws://'') @ host s"

definition connect :: "state \<Rightarrow> state" where
  "connect s =
     (let s1 = disconnect s;
          c = length (socks s1);
          s2 = s1\<lparr>socks := socks s1 @ [\<lparr>url = wsUri s1, readyState = CONNECTING\<rparr>],
                  conn := Some c\<rparr>
      in log ''Connecting...'' s2)"

definition pongTimeout :: "state \<Rightarrow> state outcome" where
  "pongTimeout s =
     (if \<not> pongReceived s
      then (let s1 = log ''Pong timeout! Disconnecting...'' s
            in case conn s1 of
                 None \<Rightarrow> Threw TypeError s1
               | Some c \<Rightarrow> ws_close_code c 1008 ''Pong timeout'' s1)
      else Returned s)"

definition sendPing :: "state \<Rightarrow> state" where
  "sendPing s =
     (case conn s of
        None \<Rightarrow> s
      | Some c \<Rightarrow>
          if rs c s = OPEN
          then (let s1 = s\<lparr>wire := wire s @ [(c, ''ping'')]\<rparr>;
                    s2 = s1\<lparr>pongReceived := False\<rparr>;
                    (h, s3) = setTimeout Cb_pongTimeout PONG_TIMEOUT_MS s2
                in s3\<lparr>pongTimeoutId := Some h\<rparr>)
          else s)"

definition startPingPong :: "state \<Rightarrow> state" where
  "startPingPong s =
     (let (h, s1) = setInterval Cb_sendPing PING_INTERVAL_MS (stopPingPong s)
      in s1\<lparr>pingInterval := Some h\<rparr>)"

definition onopen :: "state \<Rightarrow> state" where
  "onopen s = update_ui (startPingPong ((log ''Connected.'' s)\<lparr>pongReceived := True\<rparr>))"

definition onmessage :: "string \<Rightarrow> state \<Rightarrow> state" where
  "onmessage d s =
     (let s1 = log (''Received: '' @ d) s
      in if d = ''pong''
         then (clearTimer (pongTimeoutId s1) s1)\<lparr>pongReceived := True\<rparr>
         else s1)"

definition onclose :: "nat \<Rightarrow> state \<Rightarrow> state" where
  "onclose code s =
     (let s1 = log (''Disconnected. Code: '' @ dec code) s;
          s2 = update_ui (stopPingPong (s1\<lparr>conn := None\<rparr>))
      in snd (setTimeout Cb_connect 5000 s2))"

definition onerror :: "state \<Rightarrow> state" where
  "onerror s = stopPingPong (log ''WebSocket Error occurred.'' s)"

definition connect_click :: "state \<Rightarrow> state" where
  "connect_click s = update_ui (if conn s = None then connect s else disconnect s)"

definition send_click :: "state \<Rightarrow> state outcome" where
  "send_click s =
     (let text = textval s
      in if trim text = ''''
         then Returned s
         else (let s1 = log (''Sending: '' @ text) s
               in case conn s1 of
                    None \<Rightarrow> Threw TypeError s1
                  | Some c \<Rightarrow>
                      (case ws_send c text s1 of
                         Threw e s2 \<Rightarrow> Threw e s2
                       | Returned s2 \<Rightarrow> Returned (s2\<lparr>textval := ''''\<rparr>))))"

definition text_keyup :: "nat \<Rightarrow> state \<Rightarrow> state outcome" where
  "text_keyup keyCode s = (if keyCode = 13 then send_click s else Returned s)"

subsection \<open>The event loop\<close>

text \<open>
  One task runs at a time. A task is a notification of a WebSocket, a timer that
  fires, or an action of the user. A timer fires at its due time, the earliest first
  (among equals the first in the table); a one-shot timer leaves the table when it
  fires and a recurring one is armed again one period later. An exception that leaves
  a handler ends that task only and is reported.
\<close>

fun earliest :: "timer list \<Rightarrow> timer option" where
  "earliest [] = None"
| "earliest (t # ts) =
     (case earliest ts of
        None \<Rightarrow> Some t
      | Some u \<Rightarrow> if due t \<le> due u then Some t else Some u)"

definition report :: "state outcome \<Rightarrow> state" where
  "report r = (case r of Returned s \<Rightarrow> s | Threw e s \<Rightarrow> s\<lparr>uncaught := uncaught s @ [e]\<rparr>)"

definition run_callback :: "callback \<Rightarrow> state \<Rightarrow> state" where
  "run_callback cb s =
     (case cb of
        Cb_connect \<Rightarrow> connect s
      | Cb_sendPing \<Rightarrow> sendPing s
      | Cb_pongTimeout \<Rightarrow> report (pongTimeout s))"

definition fire :: "timer \<Rightarrow> state \<Rightarrow> state" where
  "fire tm s =
     (let t = max (now s) (due tm);
          rest = filter (\<lambda>u. handle u \<noteq> handle tm) (timers s);
          again = (case period tm of None \<Rightarrow> [] | Some p \<Rightarrow> [tm\<lparr>due := t + p\<rparr>])
      in run_callback (callback tm) (s\<lparr>now := t, timers := rest @ again\<rparr>))"

datatype event =
    Open nat
  | Message nat string
  | Close nat nat
  | Error nat
  | Tick
  | Wait nat
  | Click_connect
  | Click_send
  | Keyup nat
  | Input string

text \<open>
  \<open>Open c\<close>, \<open>Message c d\<close>, \<open>Close c code\<close> and \<open>Error c\<close> are the notifications of
  socket \<open>c\<close>; \<open>Tick\<close> is the next timer firing; \<open>Wait t\<close> lets the clock reach \<open>t\<close>
  when no timer is due by then; \<open>Input\<close> is the user typing into \<open>#text\<close>. An event
  that cannot occur in a state (a socket that does not exist, an open notification
  on a socket that is not connecting, a wait that would skip a timer) has no
  successor state. The handlers receive the event's data (\<open>e.data\<close>, \<open>e.code\<close>) and
  nothing that tells which socket raised it: the script never reads \<open>this\<close> or
  \<open>e.target\<close>. A socket is marked open before its open handler runs and closed
  before its close handler runs; its error notification comes before its close
  notification.
\<close>

definition enabled :: "event \<Rightarrow> state \<Rightarrow> bool" where
  "enabled e s =
     (case e of
        Open c \<Rightarrow> c < length (socks s) \<and> rs c s = CONNECTING
      | Message c d \<Rightarrow> c < length (socks s) \<and> (rs c s = OPEN \<or> rs c s = CLOSING)
      | Close c code \<Rightarrow> c < length (socks s) \<and> rs c s \<noteq> CLOSED
      | Error c \<Rightarrow> c < length (socks s) \<and> rs c s \<noteq> CLOSED
      | Tick \<Rightarrow> earliest (timers s) \<noteq> None
      | Wait t \<Rightarrow> now s \<le> t \<and> list_all (\<lambda>tm. t < due tm) (timers s)
      | Click_connect \<Rightarrow> True
      | Click_send \<Rightarrow> True
      | Keyup k \<Rightarrow> True
      | Input t \<Rightarrow> True)"

definition deliver :: "event \<Rightarrow> state \<Rightarrow> state" where
  "deliver e s =
     (case e of
        Open c \<Rightarrow> onopen (set_rs c OPEN s)
      | Message c d \<Rightarrow> onmessage d s
      | Close c code \<Rightarrow> onclose code (set_rs c CLOSED s)
      | Error c \<Rightarrow> onerror s
      | Tick \<Rightarrow> (case earliest (timers s) of None \<Rightarrow> s | Some tm \<Rightarrow> fire tm s)
      | Wait t \<Rightarrow> s\<lparr>now := t\<rparr>
      | Click_connect \<Rightarrow> connect_click s
      | Click_send \<Rightarrow> report (send_click s)
      | Keyup k \<Rightarrow> report (text_keyup k s)
      | Input t \<Rightarrow> s\<lparr>textval := t\<rparr>)"

definition step :: "event \<Rightarrow> state \<Rightarrow> state option" where
  "step e s = (if enabled e s then Some (deliver e s) else None)"

fun exec :: "event list \<Rightarrow> state \<Rightarrow> state option" where
  "exec [] s = Some s"
| "exec (e # es) s = (case step e s of None \<Rightarrow> None | Some s' \<Rightarrow> exec es s')"

text \<open>The state when the script has run to its end on page load: the declarations
  of the variables and the final \<open>update_ui()\<close>, on a page loaded from host \<open>h\<close>
  (over https when \<open>secure\<close>), with an empty log and an empty text field.\<close>

definition page_load :: "bool \<Rightarrow> string \<Rightarrow> state" where
  "page_load secure h =
     update_ui
       \<lparr>conn = None, pingInterval = None, pongReceived = True, pongTimeoutId = None,
        logdiv = [], status = [], connectLabel = [], textval = [],
        https = secure, host = h, socks = [], wire = [], closeReqs = [],
        timers = [], nextHandle = 1, now = 0, uncaught = []\<rparr>"

subsection \<open>Heartbeat timers and their ownership\<close>

text \<open>The pending timers that will call a given function; the heartbeat's timers are
  those of \<open>sendPing\<close> and of the pong timeout.\<close>

definition pending :: "callback \<Rightarrow> state \<Rightarrow> timer list" where
  "pending cb s = filter (\<lambda>t. callback t = cb) (timers s)"

definition heartbeat_timers :: "state \<Rightarrow> timer list" where
  "heartbeat_timers s = filter (\<lambda>t. callback t \<noteq> Cb_connect) (timers s)"

text \<open>
  What the script and the timer table keep true together: handles are positive, fresh
  and pairwise different, no pending timer is overdue, the pending \<open>sendPing\<close> timer
  is the recurring one named by \<open>pingInterval\<close>, a pending pong timeout is the one-shot
  timer named by \<open>pongTimeoutId\<close>, and a pending pong timeout is due before the next
  ping.
\<close>

definition hb_inv :: "state \<Rightarrow> bool" where
  "hb_inv s \<longleftrightarrow>
     0 < nextHandle s \<and>
     distinct (map handle (timers s)) \<and>
     (\<forall>tm \<in> set (timers s). 0 < handle tm \<and> handle tm < nextHandle s \<and> now s \<le> due tm) \<and>
     (\<forall>tm \<in> set (timers s).
        period tm = (if callback tm = Cb_sendPing then Some PING_INTERVAL_MS else None)) \<and>
     (\<forall>tm \<in> set (timers s). callback tm = Cb_sendPing \<longrightarrow> pingInterval s = Some (handle tm)) \<and>
     (\<forall>tm \<in> set (timers s). callback tm = Cb_pongTimeout \<longrightarrow> pongTimeoutId s = Some (handle tm)) \<and>
     (\<forall>p \<in> set (timers s). \<forall>i \<in> set (timers s).
        callback p = Cb_pongTimeout \<and> callback i = Cb_sendPing \<longrightarrow> due p < due i)"

text \<open>A pong timeout is pending only while no pong has been received for the last
  ping.\<close>

definition pong_inv :: "state \<Rightarrow> bool" where
  "pong_inv s \<longleftrightarrow> (\<forall>tm \<in> set (timers s). callback tm = Cb_pongTimeout \<longrightarrow> \<not> pongReceived s)"

definition script_inv :: "state \<Rightarrow> bool" where
  "script_inv s \<longleftrightarrow> hb_inv s \<and> pong_inv s"

section \<open>Ownership of the heartbeat timers is kept by every task\<close>

lemma hb_inv_fields:
  "timers s' = timers s \<Longrightarrow> nextHandle s' = nextHandle s \<Longrightarrow> now s' = now s \<Longrightarrow>
   pingInterval s' = pingInterval s \<Longrightarrow> pongTimeoutId s' = pongTimeoutId s \<Longrightarrow>
   hb_inv s' = hb_inv s"
  by (simp add: hb_inv_def)

lemma hb_inv_log [simp]: "hb_inv (log m s) = hb_inv s"
  by (rule hb_inv_fields) (simp_all add: log_def Let_def)

lemma hb_inv_update_ui [simp]: "hb_inv (update_ui s) = hb_inv s"
  by (rule hb_inv_fields) (simp_all add: update_ui_def)

lemma hb_inv_set_rs [simp]: "hb_inv (set_rs c r s) = hb_inv s"
  by (rule hb_inv_fields) (simp_all add: set_rs_def)

lemma hb_inv_start_close [simp]: "hb_inv (start_close c a s) = hb_inv s"
  by (rule hb_inv_fields) (simp_all add: start_close_def set_rs_def)

lemma hb_inv_ws_close [simp]: "hb_inv (ws_close c s) = hb_inv s"
  by (simp add: ws_close_def)

lemma hb_inv_conn [simp]: "hb_inv (s\<lparr>conn := x\<rparr>) = hb_inv s"
  by (rule hb_inv_fields) simp_all

lemma hb_inv_pongReceived [simp]: "hb_inv (s\<lparr>pongReceived := x\<rparr>) = hb_inv s"
  by (rule hb_inv_fields) simp_all

lemma hb_inv_socks [simp]: "hb_inv (s\<lparr>socks := x\<rparr>) = hb_inv s"
  by (rule hb_inv_fields) simp_all

lemma hb_inv_wire [simp]: "hb_inv (s\<lparr>wire := x\<rparr>) = hb_inv s"
  by (rule hb_inv_fields) simp_all

lemma hb_inv_textval [simp]: "hb_inv (s\<lparr>textval := x\<rparr>) = hb_inv s"
  by (rule hb_inv_fields) simp_all

lemma hb_inv_uncaught [simp]: "hb_inv (s\<lparr>uncaught := x\<rparr>) = hb_inv s"
  by (rule hb_inv_fields) simp_all

lemma heartbeat_timers_stop:
  assumes "hb_inv s"
  shows "heartbeat_timers (stopPingPong s) = []"
proof -
  have "callback tm = Cb_connect" if "tm \<in> set (timers (stopPingPong s))" for tm
  proof (cases "callback tm")
    case Cb_connect
    then show ?thesis .
  next
    case Cb_sendPing
    with assms that show ?thesis
      by (auto simp: hb_inv_def stopPingPong_def clearTimer_def truthy_def Let_def split: if_splits option.splits)
  next
    case Cb_pongTimeout
    with assms that show ?thesis
      by (auto simp: hb_inv_def stopPingPong_def clearTimer_def truthy_def Let_def split: if_splits option.splits)
  qed
  then show ?thesis
    by (auto simp: heartbeat_timers_def filter_empty_conv)
qed

lemma hb_inv_stop:
  assumes "hb_inv s"
  shows "hb_inv (stopPingPong s)"
  using assms
  by (auto simp: hb_inv_def stopPingPong_def clearTimer_def truthy_def Let_def distinct_map_filter split: option.splits)


lemma hb_inv_setTimeout:
  assumes "hb_inv s" and "cb \<noteq> Cb_sendPing"
    and "cb = Cb_pongTimeout \<Longrightarrow> pending Cb_pongTimeout s = [] \<and>
           (\<forall>i \<in> set (timers s). callback i = Cb_sendPing \<longrightarrow> now s + d < due i)"
  shows "hb_inv ((snd (setTimeout cb d s))\<lparr>pongTimeoutId :=
           (if cb = Cb_pongTimeout then Some (fst (setTimeout cb d s)) else pongTimeoutId s)\<rparr>)"
  using assms
  by (cases cb) (auto simp: hb_inv_def setTimeout_def setTimer_def pending_def filter_empty_conv)

lemma hb_inv_start:
  assumes "hb_inv s"
  shows "hb_inv (startPingPong s)"
proof -
  have a: "hb_inv (stopPingPong s)" using assms by (rule hb_inv_stop)
  have b: "\<forall>tm \<in> set (timers (stopPingPong s)). callback tm = Cb_connect"
    using heartbeat_timers_stop [OF assms] by (auto simp: heartbeat_timers_def filter_empty_conv)
  show ?thesis
    using a b
    by (auto simp: hb_inv_def startPingPong_def setInterval_def setTimer_def)
qed

lemma hb_inv_onopen: "hb_inv s \<Longrightarrow> hb_inv (onopen s)"
  by (simp add: onopen_def hb_inv_start)

lemma hb_inv_clearTimer: "hb_inv s \<Longrightarrow> hb_inv (clearTimer v s)"
  by (auto simp: hb_inv_def clearTimer_def distinct_map_filter split: option.splits)

lemma hb_inv_onmessage: "hb_inv s \<Longrightarrow> hb_inv (onmessage d s)"
  by (simp add: onmessage_def Let_def hb_inv_clearTimer)

lemma hb_inv_onclose:
  assumes "hb_inv s"
  shows "hb_inv (onclose code s)"
proof -
  let ?s2 = "update_ui (stopPingPong ((log (''Disconnected. Code: '' @ dec code) s)\<lparr>conn := None\<rparr>))"
  have "hb_inv ?s2" using assms by (simp add: hb_inv_stop)
  from hb_inv_setTimeout [OF this, of Cb_connect 5000]
  have "hb_inv ((snd (setTimeout Cb_connect 5000 ?s2))\<lparr>pongTimeoutId := pongTimeoutId ?s2\<rparr>)"
    by simp
  moreover have "(snd (setTimeout Cb_connect 5000 ?s2))\<lparr>pongTimeoutId := pongTimeoutId ?s2\<rparr>
      = snd (setTimeout Cb_connect 5000 ?s2)"
    by (simp add: setTimeout_def setTimer_def)
  ultimately show ?thesis by (simp add: onclose_def Let_def)
qed

lemma hb_inv_onerror: "hb_inv s \<Longrightarrow> hb_inv (onerror s)"
  by (simp add: onerror_def hb_inv_stop)

lemma hb_inv_disconnect: "hb_inv s \<Longrightarrow> hb_inv (disconnect s)"
  by (simp add: disconnect_def hb_inv_stop split: option.splits)

lemma hb_inv_connect: "hb_inv s \<Longrightarrow> hb_inv (connect s)"
  by (simp add: connect_def Let_def hb_inv_disconnect)

lemma hb_inv_connect_click: "hb_inv s \<Longrightarrow> hb_inv (connect_click s)"
  by (simp add: connect_click_def hb_inv_disconnect hb_inv_connect)

lemma hb_inv_report_send_click: "hb_inv s \<Longrightarrow> hb_inv (report (send_click s))"
  by (auto simp: send_click_def report_def ws_send_def Let_def split: option.splits readyState.splits)

lemma hb_inv_report_text_keyup: "hb_inv s \<Longrightarrow> hb_inv (report (text_keyup k s))"
  by (simp add: text_keyup_def hb_inv_report_send_click) (simp add: report_def)

lemma hb_inv_report_pongTimeout: "hb_inv s \<Longrightarrow> hb_inv (report (pongTimeout s))"
  by (auto simp: pongTimeout_def report_def ws_close_code_def Let_def split: option.splits)

lemma earliest_None: "earliest ts = None \<longleftrightarrow> ts = []"
  by (cases ts) (auto split: option.splits)

lemma earliest_mem: "earliest ts = Some tm \<Longrightarrow> tm \<in> set ts"
  by (induction ts arbitrary: tm) (auto split: option.splits if_splits)

lemma earliest_least: "earliest ts = Some tm \<Longrightarrow> u \<in> set ts \<Longrightarrow> due tm \<le> due u"
  by (induction ts arbitrary: tm) (fastforce simp: earliest_None split: option.splits if_splits)+

lemma hb_inv_fire:
  assumes inv: "hb_inv s" and e: "earliest (timers s) = Some tm"
  shows "hb_inv (fire tm s)"
proof -
  have mem: "tm \<in> set (timers s)" using e by (rule earliest_mem)
  have least: "\<And>u. u \<in> set (timers s) \<Longrightarrow> due tm \<le> due u" using e by (rule earliest_least)
  have nowle: "now s \<le> due tm" using inv mem by (auto simp: hb_inv_def)
  let ?rest = "filter (\<lambda>u. handle u \<noteq> handle tm) (timers s)"
  show ?thesis
  proof (cases "callback tm")
    case Cb_connect
    then have per: "period tm = None" using inv mem by (auto simp: hb_inv_def)
    have "hb_inv (s\<lparr>now := due tm, timers := ?rest\<rparr>)"
      using inv least by (auto simp: hb_inv_def distinct_map_filter)
    then show ?thesis
      using Cb_connect per nowle
      by (simp add: fire_def Let_def run_callback_def max_def hb_inv_connect)
  next
    case Cb_pongTimeout
    then have per: "period tm = None" using inv mem by (auto simp: hb_inv_def)
    have "hb_inv (s\<lparr>now := due tm, timers := ?rest\<rparr>)"
      using inv least by (auto simp: hb_inv_def distinct_map_filter)
    then show ?thesis
      using Cb_pongTimeout per nowle
      by (simp add: fire_def Let_def run_callback_def max_def hb_inv_report_pongTimeout)
  next
    case Cb_sendPing
    then have per: "period tm = Some PING_INTERVAL_MS" using inv mem by (auto simp: hb_inv_def)
    have nopong: "callback u \<noteq> Cb_pongTimeout" if "u \<in> set (timers s)" for u
    proof
      assume "callback u = Cb_pongTimeout"
      with inv that mem Cb_sendPing have "due u < due tm" by (auto simp: hb_inv_def)
      with least [OF that] show False by simp
    qed
    have only: "callback u = Cb_connect" if "u \<in> set ?rest" for u
    proof (cases "callback u")
      case Cb_sendPing
      from that have u: "u \<in> set (timers s)" and ne: "handle u \<noteq> handle tm" by auto
      from inv u Cb_sendPing have "pingInterval s = Some (handle u)"
        by (simp add: hb_inv_def)
      moreover from inv mem \<open>callback tm = Cb_sendPing\<close> have "pingInterval s = Some (handle tm)"
        by (simp add: hb_inv_def)
      ultimately show ?thesis using ne by simp
    next
      case Cb_pongTimeout
      with nopong that show ?thesis by auto
    qed simp
    let ?s1 = "s\<lparr>now := due tm, timers := ?rest @ [tm\<lparr>due := due tm + PING_INTERVAL_MS\<rparr>]\<rparr>"
    have fresh: "handle tm \<notin> handle ` set ?rest" by auto
    have inv1: "hb_inv ?s1"
      using inv least mem Cb_sendPing per only fresh
      by (auto simp: hb_inv_def distinct_map_filter)
    have nop1: "\<forall>u \<in> set (timers ?s1). callback u \<noteq> Cb_pongTimeout"
      using only Cb_sendPing by auto
    have sp: "hb_inv (sendPing ?s1)"
      using inv1 nop1 only Cb_sendPing
      by (auto simp: sendPing_def hb_inv_def setTimeout_def setTimer_def Let_def
            PING_INTERVAL_MS_def PONG_TIMEOUT_MS_def split: option.splits)
    show ?thesis
      using sp Cb_sendPing per nowle
      by (simp add: fire_def Let_def run_callback_def max_def)
  qed
qed

lemma hb_inv_step:
  assumes "hb_inv s" and "step e s = Some s'"
  shows "hb_inv s'"
proof (cases e)
  case Tick
  with assms show ?thesis
    by (auto simp: step_def enabled_def deliver_def hb_inv_fire split: if_splits)
next
  case (Wait t)
  with assms have en: "now s \<le> t" "\<forall>tm \<in> set (timers s). t < due tm" and s': "s' = s\<lparr>now := t\<rparr>"
    by (auto simp: step_def enabled_def deliver_def list_all_iff split: if_splits)
  from en(2) have "\<forall>tm \<in> set (timers s). t \<le> due tm" by (auto intro: less_imp_le)
  with assms(1) show ?thesis unfolding s' by (simp add: hb_inv_def)
qed (use assms in \<open>auto simp: step_def deliver_def hb_inv_onopen hb_inv_onmessage hb_inv_onclose
       hb_inv_onerror hb_inv_connect_click hb_inv_report_send_click hb_inv_report_text_keyup
       split: if_splits\<close>)

lemma hb_inv_exec: "hb_inv s \<Longrightarrow> exec es s = Some s' \<Longrightarrow> hb_inv s'"
  by (induction es arbitrary: s) (auto split: option.splits dest: hb_inv_step)

lemma hb_inv_page_load: "hb_inv (page_load secure h)"
  by (simp add: page_load_def) (simp add: hb_inv_def)

lemma pong_inv_fields:
  "timers s' = timers s \<Longrightarrow> pongReceived s' = pongReceived s \<Longrightarrow> pong_inv s' = pong_inv s"
  by (simp add: pong_inv_def)

lemma pong_inv_log [simp]: "pong_inv (log m s) = pong_inv s"
  by (rule pong_inv_fields) (simp_all add: log_def Let_def)

lemma pong_inv_update_ui [simp]: "pong_inv (update_ui s) = pong_inv s"
  by (rule pong_inv_fields) (simp_all add: update_ui_def)

lemma pong_inv_set_rs [simp]: "pong_inv (set_rs c r s) = pong_inv s"
  by (rule pong_inv_fields) (simp_all add: set_rs_def)

lemma pong_inv_start_close [simp]: "pong_inv (start_close c a s) = pong_inv s"
  by (rule pong_inv_fields) (simp_all add: start_close_def set_rs_def)

lemma pong_inv_ws_close [simp]: "pong_inv (ws_close c s) = pong_inv s"
  by (simp add: ws_close_def)

lemma pong_inv_conn [simp]: "pong_inv (s\<lparr>conn := x\<rparr>) = pong_inv s"
  by (rule pong_inv_fields) simp_all

lemma pong_inv_socks [simp]: "pong_inv (s\<lparr>socks := x\<rparr>) = pong_inv s"
  by (rule pong_inv_fields) simp_all

lemma pong_inv_wire [simp]: "pong_inv (s\<lparr>wire := x\<rparr>) = pong_inv s"
  by (rule pong_inv_fields) simp_all

lemma pong_inv_textval [simp]: "pong_inv (s\<lparr>textval := x\<rparr>) = pong_inv s"
  by (rule pong_inv_fields) simp_all

lemma pong_inv_uncaught [simp]: "pong_inv (s\<lparr>uncaught := x\<rparr>) = pong_inv s"
  by (rule pong_inv_fields) simp_all

lemma pong_inv_now [simp]: "pong_inv (s\<lparr>now := x\<rparr>) = pong_inv s"
  by (rule pong_inv_fields) simp_all

lemma pong_inv_no_heartbeat: "heartbeat_timers s = [] \<Longrightarrow> pong_inv s"
  by (auto simp: pong_inv_def heartbeat_timers_def filter_empty_conv)

lemma pong_inv_stop: "hb_inv s \<Longrightarrow> pong_inv (stopPingPong s)"
  by (rule pong_inv_no_heartbeat) (rule heartbeat_timers_stop)

lemma pong_inv_start: "hb_inv s \<Longrightarrow> pong_inv (startPingPong s)"
  using heartbeat_timers_stop [of s]
  by (auto simp: pong_inv_def startPingPong_def setInterval_def setTimer_def
        heartbeat_timers_def filter_empty_conv)

lemma pong_inv_onopen: "hb_inv s \<Longrightarrow> pong_inv (onopen s)"
  by (simp add: onopen_def pong_inv_start)

lemma pong_inv_onmessage:
  assumes "hb_inv s" and "pong_inv s"
  shows "pong_inv (onmessage d s)"
proof (cases "d = ''pong''")
  case True
  have "callback tm \<noteq> Cb_pongTimeout"
    if "tm \<in> set (timers (clearTimer (pongTimeoutId s) s))" for tm
    using that assms(1) by (auto simp: clearTimer_def hb_inv_def split: option.splits)
  then show ?thesis
    using True by (auto simp: onmessage_def Let_def pong_inv_def log_def clearTimer_def split: option.splits)
next
  case False
  with assms(2) show ?thesis by (simp add: onmessage_def Let_def)
qed

lemma pong_inv_onclose: "hb_inv s \<Longrightarrow> pong_inv (onclose code s)"
  using heartbeat_timers_stop [of "(log (''Disconnected. Code: '' @ dec code) s)\<lparr>conn := None\<rparr>"]
  by (auto simp: onclose_def Let_def pong_inv_def setTimeout_def setTimer_def update_ui_def
        heartbeat_timers_def filter_empty_conv)

lemma pong_inv_onerror: "hb_inv s \<Longrightarrow> pong_inv (onerror s)"
  by (simp add: onerror_def pong_inv_stop)

lemma pong_inv_disconnect: "hb_inv s \<Longrightarrow> pong_inv s \<Longrightarrow> pong_inv (disconnect s)"
  by (simp add: disconnect_def pong_inv_stop split: option.splits)

lemma pong_inv_connect: "hb_inv s \<Longrightarrow> pong_inv s \<Longrightarrow> pong_inv (connect s)"
  by (simp add: connect_def Let_def pong_inv_disconnect)

lemma pong_inv_connect_click: "hb_inv s \<Longrightarrow> pong_inv s \<Longrightarrow> pong_inv (connect_click s)"
  by (simp add: connect_click_def pong_inv_disconnect pong_inv_connect)

lemma pong_inv_report_send_click: "pong_inv s \<Longrightarrow> pong_inv (report (send_click s))"
  by (auto simp: send_click_def report_def ws_send_def Let_def split: option.splits readyState.splits)

lemma pong_inv_report_text_keyup: "pong_inv s \<Longrightarrow> pong_inv (report (text_keyup k s))"
  by (simp add: text_keyup_def pong_inv_report_send_click) (simp add: report_def)

lemma pong_inv_report_pongTimeout: "pong_inv s \<Longrightarrow> pong_inv (report (pongTimeout s))"
  by (auto simp: pongTimeout_def report_def ws_close_code_def Let_def split: option.splits)

lemma pong_inv_sendPing: "pong_inv s \<Longrightarrow> pong_inv (sendPing s)"
  by (auto simp: sendPing_def pong_inv_def setTimeout_def setTimer_def Let_def split: option.splits)

lemma hb_inv_drop:
  assumes inv: "hb_inv s" and e: "earliest (timers s) = Some tm"
  shows "hb_inv (s\<lparr>now := max (now s) (due tm),
                   timers := filter (\<lambda>u. handle u \<noteq> handle tm) (timers s)\<rparr>)"
proof -
  have mem: "tm \<in> set (timers s)" using e by (rule earliest_mem)
  have least: "\<And>u. u \<in> set (timers s) \<Longrightarrow> due tm \<le> due u" using e by (rule earliest_least)
  have nowle: "now s \<le> due tm" using inv mem by (auto simp: hb_inv_def)
  show ?thesis
    using inv least nowle by (auto simp: hb_inv_def distinct_map_filter max_def)
qed

lemma pong_inv_fire:
  assumes inv: "hb_inv s" and p: "pong_inv s" and e: "earliest (timers s) = Some tm"
  shows "pong_inv (fire tm s)"
proof -
  have mem: "tm \<in> set (timers s)" using e by (rule earliest_mem)
  let ?t = "max (now s) (due tm)"
  let ?rest = "filter (\<lambda>u. handle u \<noteq> handle tm) (timers s)"
  let ?again = "case period tm of None \<Rightarrow> [] | Some q \<Rightarrow> [tm\<lparr>due := ?t + q\<rparr>]"
  let ?s1 = "s\<lparr>now := ?t, timers := ?rest @ ?again\<rparr>"
  have f: "fire tm s = run_callback (callback tm) ?s1"
    by (simp add: fire_def Let_def)
  have p1: "pong_inv ?s1"
    using p mem by (auto simp: pong_inv_def split: option.splits)
  show ?thesis
  proof (cases "callback tm")
    case Cb_connect
    then have per: "period tm = None" using inv mem by (auto simp: hb_inv_def)
    have "hb_inv ?s1" using hb_inv_drop [OF inv e] per by simp
    with p1 show ?thesis
      unfolding f using Cb_connect by (simp add: run_callback_def pong_inv_connect)
  next
    case Cb_sendPing
    with p1 show ?thesis
      unfolding f by (simp add: run_callback_def pong_inv_sendPing)
  next
    case Cb_pongTimeout
    with p1 show ?thesis
      unfolding f by (simp add: run_callback_def pong_inv_report_pongTimeout)
  qed
qed

lemma script_inv_step:
  assumes "script_inv s" and "step e s = Some s'"
  shows "script_inv s'"
proof -
  have h: "hb_inv s" and p: "pong_inv s" using assms(1) by (simp_all add: script_inv_def)
  have "hb_inv s'" using h assms(2) by (rule hb_inv_step)
  moreover have "pong_inv s'"
  proof (cases e)
    case Tick
    with assms(2) h p show ?thesis
      by (auto simp: step_def enabled_def deliver_def pong_inv_fire split: if_splits)
  qed (use assms(2) h p in \<open>auto simp: step_def deliver_def pong_inv_onopen pong_inv_onmessage
         pong_inv_onclose pong_inv_onerror pong_inv_connect_click pong_inv_report_send_click
         pong_inv_report_text_keyup split: if_splits\<close>)
  ultimately show ?thesis by (simp add: script_inv_def)
qed

lemma script_inv_exec: "script_inv s \<Longrightarrow> exec es s = Some s' \<Longrightarrow> script_inv s'"
  by (induction es arbitrary: s) (auto split: option.splits dest: script_inv_step)

lemma script_inv_page_load: "script_inv (page_load secure h)"
  by (simp add: script_inv_def hb_inv_page_load) (simp add: page_load_def pong_inv_def update_ui_def)

section \<open>Strings and the log\<close>

lemma trim_empty_iff: "trim t = [] \<longleftrightarrow> list_all is_space t"
proof -
  have "dropWhile is_space t = [] \<longleftrightarrow> list_all is_space t"
    by (induction t) auto
  moreover have "dropWhile is_space (rev (dropWhile is_space t)) = [] \<longleftrightarrow> dropWhile is_space t = []"
  proof (cases "dropWhile is_space t")
    case Nil
    then show ?thesis by (simp del: dropWhile_eq_Nil_conv)
  next
    case (Cons a as)
    then have "\<not> is_space a" using hd_dropWhile [of is_space t] by simp
    then have "dropWhile is_space (rev (a # as)) \<noteq> []"
      by (simp add: dropWhile_eq_Nil_conv)
    with Cons show ?thesis by simp
  qed
  ultimately show ?thesis by (simp add: trim_def)
qed

lemma logdiv_log:
  "logdiv (log m s) = html m # (if length (logdiv s) < 100 then logdiv s else butlast (logdiv s))"
  by (cases "logdiv s") (auto simp: log_def Let_def)

lemma html_plain: "plain_text m \<Longrightarrow> html m = Text m"
  by (simp add: html_def)

lemma plain_text_append: "plain_text (a @ b) \<longleftrightarrow> plain_text a \<and> plain_text b"
  by (simp add: plain_text_def)

section \<open>Sending user text\<close>

text \<open>
  C9, as the script has it. A send attempt whose text is empty or all white space
  returns at once: the state is unchanged, so no frame is transmitted and nothing is
  logged. When the text is not all white space and \<open>conn\<close> refers to an open
  WebSocket, the attempt is logged, exactly one frame is transmitted, its payload is
  the text as typed (not trimmed), and the text field is cleared.
\<close>

theorem send_click_open:
  "(list_all is_space (textval s) \<longrightarrow> send_click s = Returned s) \<and>
   (\<not> list_all is_space (textval s) \<and> conn s = Some c \<and> rs c s = OPEN \<longrightarrow>
      send_click s =
        Returned ((log (''Sending: '' @ textval s) s)
                    \<lparr>wire := wire s @ [(c, textval s)], textval := []\<rparr>))"
  by (simp add: send_click_def trim_empty_iff Let_def ws_send_def rs_def log_def)

theorem send_click_open_witness:
  "send_click ((page_load False ''h'')\<lparr>textval := []\<rparr>) = Returned ((page_load False ''h'')\<lparr>textval := []\<rparr>) \<and>
   send_click ((page_load False ''h'')\<lparr>textval := ''   ''\<rparr>) = Returned ((page_load False ''h'')\<lparr>textval := ''   ''\<rparr>) \<and>
   map_option (\<lambda>s. (conn s, rs 0 s, textval s, wire s))
     (exec [Click_connect, Open 0, Input ''hi''] (page_load False ''h'')) = Some (Some 0, OPEN, ''hi'', []) \<and>
   map_option (\<lambda>s. (wire s, textval s, logdiv s))
     (exec [Click_connect, Open 0, Input ''hi'', Click_send] (page_load False ''h''))
     = Some ([(0, ''hi'')], [], [Text ''Sending: hi'', Text ''Connected.'', Text ''Connecting...''])"
  using send_click_open [of "(page_load False ''h'')\<lparr>textval := []\<rparr>" 0]
    send_click_open [of "(page_load False ''h'')\<lparr>textval := ''   ''\<rparr>" 0]
    send_click_open [of "the (exec [Click_connect, Open 0, Input ''hi''] (page_load False ''h''))" 0]
  by (simp add: is_space_def step_def enabled_def deliver_def report_def
        page_load_def update_ui_def log_def html_def plain_text_def Let_def connect_click_def
        connect_def disconnect_def wsUri_def rs_def set_rs_def onopen_def startPingPong_def
        stopPingPong_def truthy_def setInterval_def setTimer_def PING_INTERVAL_MS_def)

text \<open>Without a connection the same attempt transmits nothing, although the text is
  not empty after trimming: the attempt is logged and the handler stops there.\<close>

theorem send_without_connection_counterexample:
  "trim ''hi'' = ''hi'' \<and>
   map_option wire (exec [Input ''hi'', Click_send] (page_load False ''h'')) = Some [] \<and>
   map_option logdiv (exec [Input ''hi'', Click_send] (page_load False ''h'')) = Some [Text ''Sending: hi'']"
  by (simp add: trim_def is_space_def step_def enabled_def deliver_def send_click_def report_def
        page_load_def update_ui_def log_def html_def plain_text_def Let_def)

text \<open>
  C10. With \<open>conn\<close> equal to \<open>null\<close>, the send handler returns quietly only for a
  text that trims to the empty string. For any other text it logs the attempt and
  then throws a \<open>TypeError\<close> at \<open>conn.send\<close>; the exception is not caught, no frame is
  transmitted and the text field is not cleared.
\<close>

theorem send_click_without_connection:
  "conn s = None \<Longrightarrow>
     send_click s =
       (if trim (textval s) = [] then Returned s
        else Threw TypeError (log (''Sending: '' @ textval s) s)) \<and>
     deliver Click_send s =
       (if trim (textval s) = [] then s
        else (log (''Sending: '' @ textval s) s)\<lparr>uncaught := uncaught s @ [TypeError]\<rparr>)"
  by (simp add: send_click_def deliver_def report_def Let_def log_def)

theorem send_click_without_connection_witness:
  "conn ((page_load False ''h'')\<lparr>textval := ''hi''\<rparr>) = None \<and>
   send_click ((page_load False ''h'')\<lparr>textval := ''hi''\<rparr>) =
     Threw TypeError (log ''Sending: hi'' ((page_load False ''h'')\<lparr>textval := ''hi''\<rparr>)) \<and>
   uncaught (deliver Click_send ((page_load False ''h'')\<lparr>textval := ''hi''\<rparr>)) = [TypeError] \<and>
   wire (deliver Click_send ((page_load False ''h'')\<lparr>textval := ''hi''\<rparr>)) = [] \<and>
   send_click ((page_load False ''h'')\<lparr>textval := ''   ''\<rparr>) =
     Returned ((page_load False ''h'')\<lparr>textval := ''   ''\<rparr>)"
  using send_click_without_connection [of "(page_load False ''h'')\<lparr>textval := ''hi''\<rparr>"]
    send_click_without_connection [of "(page_load False ''h'')\<lparr>textval := ''   ''\<rparr>"]
  by (simp add: page_load_def update_ui_def trim_def is_space_def log_def)

section \<open>The heartbeat\<close>

subsection \<open>What \<open>stopPingPong\<close> changes\<close>

lemma stopPingPong_keeps [simp]:
  "nextHandle (stopPingPong s) = nextHandle s" "now (stopPingPong s) = now s"
  "conn (stopPingPong s) = conn s" "socks (stopPingPong s) = socks s"
  "wire (stopPingPong s) = wire s" "closeReqs (stopPingPong s) = closeReqs s"
  "logdiv (stopPingPong s) = logdiv s" "pongReceived (stopPingPong s) = pongReceived s"
  "uncaught (stopPingPong s) = uncaught s" "textval (stopPingPong s) = textval s"
  by (simp_all add: stopPingPong_def clearTimer_def Let_def split: option.splits)

lemma stopPingPong_handles:
  "pingInterval (stopPingPong s) = (if truthy (pingInterval s) then None else pingInterval s)"
  "pongTimeoutId (stopPingPong s) = (if truthy (pongTimeoutId s) then None else pongTimeoutId s)"
  by (simp_all add: stopPingPong_def clearTimer_def Let_def split: option.splits)

lemma timers_stopPingPong:
  "timers (stopPingPong s) =
     filter (\<lambda>t. \<not> (truthy (pingInterval s) \<and> pingInterval s = Some (handle t)) \<and>
                 \<not> (truthy (pongTimeoutId s) \<and> pongTimeoutId s = Some (handle t)))
       (timers s)"
  by (cases "pingInterval s"; cases "pongTimeoutId s")
     (auto simp: stopPingPong_def clearTimer_def Let_def truthy_def intro: filter_cong)

text \<open>The definitions a run of the event loop on a given page unfolds.\<close>

lemmas run_defs =
  step_def enabled_def deliver_def report_def page_load_def update_ui_def log_def Let_def
  html_def plain_text_def
  connect_click_def connect_def disconnect_def wsUri_def rs_def set_rs_def ws_close_def
  start_close_def ws_close_code_def
  onopen_def onmessage_def onclose_def onerror_def startPingPong_def stopPingPong_def
  truthy_def clearTimer_def setInterval_def setTimeout_def setTimer_def
  PING_INTERVAL_MS_def PONG_TIMEOUT_MS_def fire_def run_callback_def sendPing_def
  pongTimeout_def

subsection \<open>Inbound frames\<close>



subsection \<open>The ping every 60 seconds\<close>

text \<open>
  C3. The open notification arms one recurring timer for \<open>sendPing\<close> with period
  60000 ms, first due 60000 ms later, and keeps its handle in \<open>pingInterval\<close>. When
  that timer is the next to fire, the clock is at its due time, the timer is armed
  again 60000 ms later and \<open>sendPing\<close> runs. \<open>sendPing\<close> on a connection whose
  WebSocket is open transmits the frame \<open>ping\<close>, sets \<open>pongReceived\<close> to false and arms
  a one-shot timer 5000 ms later for the pong timeout, whose handle it keeps in
  \<open>pongTimeoutId\<close>, and changes nothing else; with no connection, or a WebSocket that
  is not open, it changes nothing at all.
\<close>

theorem heartbeat_tick:
  "timers (onopen s) = timers (stopPingPong s) @
      [\<lparr>handle = nextHandle s, due = now s + 60000, period = Some 60000, callback = Cb_sendPing\<rparr>] \<and>
   pingInterval (onopen s) = Some (nextHandle s) \<and>
   (earliest (timers s) = Some tm \<and> callback tm = Cb_sendPing \<and> period tm = Some 60000 \<and>
    now s \<le> due tm \<longrightarrow>
      deliver Tick s =
        sendPing (s\<lparr>now := due tm,
                    timers := filter (\<lambda>u. handle u \<noteq> handle tm) (timers s) @
                              [tm\<lparr>due := due tm + 60000\<rparr>]\<rparr>)) \<and>
   (conn s = Some c \<and> rs c s = OPEN \<longrightarrow>
      sendPing s =
        s\<lparr>wire := wire s @ [(c, ''ping'')],
          pongReceived := False,
          timers := timers s @
            [\<lparr>handle = nextHandle s, due = now s + 5000, period = None, callback = Cb_pongTimeout\<rparr>],
          nextHandle := Suc (nextHandle s),
          pongTimeoutId := Some (nextHandle s)\<rparr>) \<and>
   (conn s = None \<or> (conn s = Some c \<and> rs c s \<noteq> OPEN) \<longrightarrow> sendPing s = s)"
proof -
  have a: "timers (onopen s) = timers (stopPingPong s) @
      [\<lparr>handle = nextHandle s, due = now s + 60000, period = Some 60000, callback = Cb_sendPing\<rparr>]"
    by (simp add: onopen_def update_ui_def startPingPong_def setInterval_def setTimer_def
          PING_INTERVAL_MS_def log_def Let_def timers_stopPingPong)
  have b: "pingInterval (onopen s) = Some (nextHandle s)"
    by (simp add: onopen_def update_ui_def startPingPong_def setInterval_def setTimer_def
          log_def Let_def)
  have c: "deliver Tick s =
        sendPing (s\<lparr>now := due tm,
                    timers := filter (\<lambda>u. handle u \<noteq> handle tm) (timers s) @
                              [tm\<lparr>due := due tm + 60000\<rparr>]\<rparr>)"
    if "earliest (timers s) = Some tm" "callback tm = Cb_sendPing" "period tm = Some 60000"
       "now s \<le> due tm"
    using that by (simp add: deliver_def fire_def run_callback_def Let_def max_def)
  have d: "sendPing s =
        s\<lparr>wire := wire s @ [(c, ''ping'')],
          pongReceived := False,
          timers := timers s @
            [\<lparr>handle = nextHandle s, due = now s + 5000, period = None, callback = Cb_pongTimeout\<rparr>],
          nextHandle := Suc (nextHandle s),
          pongTimeoutId := Some (nextHandle s)\<rparr>"
    if "conn s = Some c" "rs c s = OPEN"
    using that
    by (simp add: sendPing_def rs_def setTimeout_def setTimer_def PONG_TIMEOUT_MS_def Let_def)
  have e: "sendPing s = s" if "conn s = None \<or> (conn s = Some c \<and> rs c s \<noteq> OPEN)"
    using that by (auto simp: sendPing_def)
  show ?thesis
    using a b c d e by blast
qed

theorem heartbeat_tick_witness:
  "map_option (\<lambda>s. (now s, conn s, rs 0 s, timers s))
     (exec [Click_connect, Open 0] (page_load False ''h'')) =
     Some (0, Some 0, OPEN,
           [\<lparr>handle = 1, due = 60000, period = Some 60000, callback = Cb_sendPing\<rparr>]) \<and>
   map_option (\<lambda>s. (now s, wire s, pongReceived s, pongTimeoutId s, timers s))
     (exec [Click_connect, Open 0, Tick] (page_load False ''h'')) =
     Some (60000, [(0, ''ping'')], False, Some 2,
           [\<lparr>handle = 1, due = 120000, period = Some 60000, callback = Cb_sendPing\<rparr>,
            \<lparr>handle = 2, due = 65000, period = None, callback = Cb_pongTimeout\<rparr>]) \<and>
   sendPing (page_load False ''h'') = page_load False ''h'' \<and>
   map_option (\<lambda>s. (conn s, rs 0 s)) (exec [Click_connect] (page_load False ''h'')) =
     Some (Some 0, CONNECTING) \<and>
   map_option sendPing (exec [Click_connect] (page_load False ''h'')) =
     exec [Click_connect] (page_load False ''h'')"
  using
    heartbeat_tick [of "the (exec [Click_connect, Open 0] (page_load False ''h''))"
      "\<lparr>handle = 1, due = 60000, period = Some 60000, callback = Cb_sendPing\<rparr>" 0]
    heartbeat_tick [of "page_load False ''h''"
      "\<lparr>handle = 1, due = 60000, period = Some 60000, callback = Cb_sendPing\<rparr>" 0]
    heartbeat_tick [of "the (exec [Click_connect] (page_load False ''h''))"
      "\<lparr>handle = 1, due = 60000, period = Some 60000, callback = Cb_sendPing\<rparr>" 0]
  by (simp add: run_defs)

subsection \<open>A server that never answers\<close>

lemma open_fields:
  assumes "conn s = Some c" and "c < length (socks s)" and "timers s = []"
  shows "conn (deliver (Open c) s) = Some c"
    and "rs c (deliver (Open c) s) = OPEN"
    and "length (socks (deliver (Open c) s)) = length (socks s)"
    and "timers (deliver (Open c) s) =
           [\<lparr>handle = nextHandle s, due = now s + 60000, period = Some 60000,
             callback = Cb_sendPing\<rparr>]"
    and "now (deliver (Open c) s) = now s"
    and "wire (deliver (Open c) s) = wire s"
    and "closeReqs (deliver (Open c) s) = closeReqs s"
    and "nextHandle (deliver (Open c) s) = Suc (nextHandle s)"
    and "pongReceived (deliver (Open c) s)"
    and "uncaught (deliver (Open c) s) = uncaught s"
  using assms
  by (simp_all add: deliver_def onopen_def update_ui_def startPingPong_def setInterval_def
        setTimer_def PING_INTERVAL_MS_def log_def Let_def set_rs_def rs_def
        stopPingPong_def clearTimer_def split: option.splits)

lemma wait_fields:
  "conn (deliver (Wait t) s) = conn s"
  "rs c (deliver (Wait t) s) = rs c s"
  "length (socks (deliver (Wait t) s)) = length (socks s)"
  "timers (deliver (Wait t) s) = timers s"
  "now (deliver (Wait t) s) = t"
  "wire (deliver (Wait t) s) = wire s"
  "closeReqs (deliver (Wait t) s) = closeReqs s"
  "nextHandle (deliver (Wait t) s) = nextHandle s"
  "pongReceived (deliver (Wait t) s) = pongReceived s"
  "uncaught (deliver (Wait t) s) = uncaught s"
  by (simp_all add: deliver_def rs_def)

lemma tick_ping_fields:
  assumes "conn s = Some c" and "rs c s = OPEN"
    and "timers s = [\<lparr>handle = h, due = d, period = Some p, callback = Cb_sendPing\<rparr>]"
    and "now s \<le> d"
  shows "conn (deliver Tick s) = Some c"
    and "rs c (deliver Tick s) = OPEN"
    and "length (socks (deliver Tick s)) = length (socks s)"
    and "timers (deliver Tick s) =
           [\<lparr>handle = h, due = d + p, period = Some p, callback = Cb_sendPing\<rparr>,
            \<lparr>handle = nextHandle s, due = d + 5000, period = None, callback = Cb_pongTimeout\<rparr>]"
    and "now (deliver Tick s) = d"
    and "wire (deliver Tick s) = wire s @ [(c, ''ping'')]"
    and "closeReqs (deliver Tick s) = closeReqs s"
    and "nextHandle (deliver Tick s) = Suc (nextHandle s)"
    and "\<not> pongReceived (deliver Tick s)"
    and "uncaught (deliver Tick s) = uncaught s"
  using assms
  by (simp_all add: deliver_def fire_def run_callback_def sendPing_def setTimeout_def
        setTimer_def PONG_TIMEOUT_MS_def Let_def rs_def max_def)

lemma tick_pongTimeout_fields:
  assumes "conn s = Some c" and "rs c s = OPEN"
    and "timers s = [i, \<lparr>handle = h, due = d, period = None, callback = Cb_pongTimeout\<rparr>]"
    and "d < due i" and "handle i \<noteq> h" and "now s \<le> d" and "\<not> pongReceived s"
  shows "conn (deliver Tick s) = Some c"
    and "rs c (deliver Tick s) = OPEN"
    and "timers (deliver Tick s) = [i]"
    and "now (deliver Tick s) = d"
    and "wire (deliver Tick s) = wire s"
    and "closeReqs (deliver Tick s) = closeReqs s"
    and "uncaught (deliver Tick s) = uncaught s @ [InvalidAccessError]"
    and "hd (logdiv (deliver Tick s)) = Text ''Pong timeout! Disconnecting...''"
  using assms
  by (simp_all add: deliver_def fire_def run_callback_def pongTimeout_def report_def
        ws_close_code_def log_def html_def plain_text_def Let_def rs_def max_def)

text \<open>
  C2, on the script as it is. A connection is being established, no timer is pending,
  and the open notification arrives at time \<open>now s\<close>. If nothing else arrives, then
  up to 59999 ms later no frame has been sent; the next timer fires at 60000 ms and
  sends exactly one frame, \<open>ping\<close>; up to 64999 ms nothing more happens; the next
  timer fires at 65000 ms and sends no further frame. It logs the pong timeout and
  calls \<open>close\<close> with code 1008 and reason \<open>Pong timeout\<close>. The WebSocket rejects
  that code, so the call throws \<open>InvalidAccessError\<close>: no closing handshake is
  started, the WebSocket stays open and \<open>conn\<close> still refers to it.
\<close>

theorem pong_timeout_throws:
  assumes "conn s = Some c" and "c < length (socks s)" and "rs c s = CONNECTING"
    and "timers s = []"
  shows
   "map_option (\<lambda>s'. (now s', wire s', closeReqs s'))
      (exec [Open c, Wait (now s + 59999)] s) = Some (now s + 59999, wire s, closeReqs s) \<and>
    map_option (\<lambda>s'. (now s', wire s', closeReqs s'))
      (exec [Open c, Wait (now s + 59999), Tick] s) =
      Some (now s + 60000, wire s @ [(c, ''ping'')], closeReqs s) \<and>
    map_option (\<lambda>s'. (now s', wire s', closeReqs s'))
      (exec [Open c, Wait (now s + 59999), Tick, Wait (now s + 64999)] s) =
      Some (now s + 64999, wire s @ [(c, ''ping'')], closeReqs s) \<and>
    map_option (\<lambda>s'. (now s', wire s', closeReqs s', rs c s', conn s', uncaught s', hd (logdiv s')))
      (exec [Open c, Wait (now s + 59999), Tick, Wait (now s + 64999), Tick] s) =
      Some (now s + 65000, wire s @ [(c, ''ping'')], closeReqs s, OPEN, Some c,
            uncaught s @ [InvalidAccessError], Text ''Pong timeout! Disconnecting...'')"
proof -
  let ?s1 = "deliver (Open c) s"
  let ?s2 = "deliver (Wait (now s + 59999)) ?s1"
  let ?s3 = "deliver Tick ?s2"
  let ?s4 = "deliver (Wait (now s + 64999)) ?s3"
  let ?s5 = "deliver Tick ?s4"
  let ?i = "\<lparr>handle = nextHandle s, due = now s + 60000, period = Some 60000,
            callback = Cb_sendPing\<rparr>"
  let ?i' = "\<lparr>handle = nextHandle s, due = now s + 120000, period = Some 60000,
            callback = Cb_sendPing\<rparr>"
  let ?p = "\<lparr>handle = Suc (nextHandle s), due = now s + 65000, period = None,
            callback = Cb_pongTimeout\<rparr>"
  note f1 = open_fields [OF assms(1,2,4)]
  have e1: "step (Open c) s = Some ?s1"
    using assms by (simp add: step_def enabled_def)
  have e2: "step (Wait (now s + 59999)) ?s1 = Some ?s2"
    by (simp add: step_def enabled_def f1)
  have f2: "conn ?s2 = Some c" "rs c ?s2 = OPEN" "timers ?s2 = [?i]"
    "now ?s2 = now s + 59999" "wire ?s2 = wire s" "closeReqs ?s2 = closeReqs s"
    "nextHandle ?s2 = Suc (nextHandle s)" "uncaught ?s2 = uncaught s"
    by (simp_all add: wait_fields f1)
  have le2: "now ?s2 \<le> now s + 60000" by (simp add: f2)
  note f3 = tick_ping_fields [OF f2(1) f2(2) f2(3) le2]
  have e3: "step Tick ?s2 = Some ?s3"
    by (simp add: step_def enabled_def f2)
  have e4: "step (Wait (now s + 64999)) ?s3 = Some ?s4"
    by (simp add: step_def enabled_def f3)
  have f4: "conn ?s4 = Some c" "rs c ?s4 = OPEN"
    "timers ?s4 = [?i', ?p]" "now ?s4 = now s + 64999" "wire ?s4 = wire s @ [(c, ''ping'')]"
    "closeReqs ?s4 = closeReqs s" "\<not> pongReceived ?s4" "uncaught ?s4 = uncaught s"
    by (simp_all add: wait_fields f3 f2 f1)
  have f5: "now ?s5 = now s + 65000" "wire ?s5 = wire s @ [(c, ''ping'')]"
    "closeReqs ?s5 = closeReqs s" "rs c ?s5 = OPEN" "conn ?s5 = Some c"
    "uncaught ?s5 = uncaught s @ [InvalidAccessError]"
    "hd (logdiv ?s5) = Text ''Pong timeout! Disconnecting...''"
    using tick_pongTimeout_fields [OF f4(1) f4(2) f4(3) _ _ _ f4(7)]
    by (simp_all add: f4)
  have e5: "step Tick ?s4 = Some ?s5"
    by (simp add: step_def enabled_def f4)
  show ?thesis
    by (simp add: e1 e2 e3 e4 e5 f1 f2 f3 f4 f5 wait_fields)
qed

theorem pong_timeout_throws_witness:
  "map_option (\<lambda>s. (conn s, rs 0 s, timers s, now s, wire s, closeReqs s))
     (exec [Click_connect] (page_load False ''h'')) = Some (Some 0, CONNECTING, [], 0, [], []) \<and>
   map_option (\<lambda>s'. (now s', wire s', closeReqs s'))
     (exec [Click_connect, Open 0, Wait 59999] (page_load False ''h'')) = Some (59999, [], []) \<and>
   map_option (\<lambda>s'. (now s', wire s', closeReqs s'))
     (exec [Click_connect, Open 0, Wait 59999, Tick] (page_load False ''h'')) =
     Some (60000, [(0, ''ping'')], []) \<and>
   map_option (\<lambda>s'. (now s', wire s', closeReqs s'))
     (exec [Click_connect, Open 0, Wait 59999, Tick, Wait 64999] (page_load False ''h'')) =
     Some (64999, [(0, ''ping'')], []) \<and>
   map_option (\<lambda>s'. (now s', wire s', closeReqs s', rs 0 s', conn s', uncaught s', logdiv s'))
     (exec [Click_connect, Open 0, Wait 59999, Tick, Wait 64999, Tick] (page_load False ''h'')) =
     Some (65000, [(0, ''ping'')], [], OPEN, Some 0, [InvalidAccessError],
           [Text ''Pong timeout! Disconnecting...'', Text ''Connected.'', Text ''Connecting...''])"
  using pong_timeout_throws [of "the (exec [Click_connect] (page_load False ''h''))" 0]
  by (simp add: run_defs)

section \<open>Closing, tearing down and reconnecting\<close>

lemma set_rs_keeps [simp]:
  "timers (set_rs c r s) = timers s" "nextHandle (set_rs c r s) = nextHandle s"
  "now (set_rs c r s) = now s" "conn (set_rs c r s) = conn s"
  "pingInterval (set_rs c r s) = pingInterval s" "pongTimeoutId (set_rs c r s) = pongTimeoutId s"
  "pongReceived (set_rs c r s) = pongReceived s" "logdiv (set_rs c r s) = logdiv s"
  by (simp_all add: set_rs_def)

lemma timers_onclose:
  "timers (onclose code s) = timers (stopPingPong s) @
     [\<lparr>handle = nextHandle s, due = now s + 5000, period = None, callback = Cb_connect\<rparr>]"
  by (simp add: onclose_def Let_def setTimeout_def setTimer_def update_ui_def
        timers_stopPingPong log_def)

lemma heartbeat_timers_onclose: "hb_inv s \<Longrightarrow> heartbeat_timers (onclose code s) = []"
  using heartbeat_timers_stop [of s]
  by (simp add: heartbeat_timers_def timers_onclose)

lemma heartbeat_timers_disconnect:
  "hb_inv s \<Longrightarrow> conn s \<noteq> None \<Longrightarrow> heartbeat_timers (disconnect s) = []"
  using heartbeat_timers_stop [of s]
  by (auto simp: heartbeat_timers_def disconnect_def update_ui_def timers_stopPingPong
        ws_close_def start_close_def set_rs_def log_def Let_def)

lemma stopPingPong_rest:
  "status (stopPingPong s) = status s" "connectLabel (stopPingPong s) = connectLabel s"
  "https (stopPingPong s) = https s" "host (stopPingPong s) = host s"
  "state.more (stopPingPong s) = state.more s"
  by (simp_all add: stopPingPong_def clearTimer_def Let_def split: option.splits)

lemma stopPingPong_eq:
  "stopPingPong s =
     s\<lparr>timers :=
         filter (\<lambda>t. \<not> (truthy (pingInterval s) \<and> pingInterval s = Some (handle t)) \<and>
                     \<not> (truthy (pongTimeoutId s) \<and> pongTimeoutId s = Some (handle t)))
           (timers s),
       pingInterval := (if truthy (pingInterval s) then None else pingInterval s),
       pongTimeoutId := (if truthy (pongTimeoutId s) then None else pongTimeoutId s)\<rparr>"
  by (rule state.equality)
     (simp_all add: stopPingPong_rest stopPingPong_handles timers_stopPingPong)

lemma onclose_socks: "onclose code (t\<lparr>socks := x\<rparr>) = (onclose code t)\<lparr>socks := x\<rparr>"
  by (simp add: onclose_def Let_def setTimeout_def setTimer_def update_ui_def log_def
        stopPingPong_eq)

lemma onopen_socks: "onopen (t\<lparr>socks := x\<rparr>) = (onopen t)\<lparr>socks := x\<rparr>"
  by (simp add: onopen_def startPingPong_def setInterval_def setTimer_def update_ui_def
        log_def Let_def stopPingPong_eq)

lemma stopPingPong_not_truthy:
  "\<not> truthy (pingInterval (stopPingPong s))" "\<not> truthy (pongTimeoutId (stopPingPong s))"
  by (simp_all add: stopPingPong_handles) (simp_all add: truthy_def)

lemma timers_stopPingPong_quiet:
  "\<not> truthy (pingInterval s) \<Longrightarrow> \<not> truthy (pongTimeoutId s) \<Longrightarrow>
     timers (stopPingPong s) = timers s"
  by (simp add: timers_stopPingPong)

lemma timers_stopPingPong_cong:
  "timers s' = timers s \<Longrightarrow> pingInterval s' = pingInterval s \<Longrightarrow>
     pongTimeoutId s' = pongTimeoutId s \<Longrightarrow> timers (stopPingPong s') = timers (stopPingPong s)"
  by (simp add: timers_stopPingPong)

lemma close_fields:
  "timers (deliver (Close c code) s) = timers (stopPingPong s) @
     [\<lparr>handle = nextHandle s, due = now s + 5000, period = None, callback = Cb_connect\<rparr>]"
  "nextHandle (deliver (Close c code) s) = Suc (nextHandle s)"
  "conn (deliver (Close c code) s) = None"
proof -
  have "timers (stopPingPong (set_rs c CLOSED s)) = timers (stopPingPong s)"
    by (rule timers_stopPingPong_cong) simp_all
  then show "timers (deliver (Close c code) s) = timers (stopPingPong s) @
     [\<lparr>handle = nextHandle s, due = now s + 5000, period = None, callback = Cb_connect\<rparr>]"
    by (simp add: deliver_def timers_onclose)
  show "nextHandle (deliver (Close c code) s) = Suc (nextHandle s)"
    by (simp add: deliver_def onclose_def Let_def setTimeout_def setTimer_def update_ui_def log_def)
  show "conn (deliver (Close c code) s) = None"
    by (simp add: deliver_def onclose_def Let_def setTimeout_def setTimer_def update_ui_def)
qed

lemma error_fields:
  "timers (deliver (Error c) s) = timers (stopPingPong s)"
  "nextHandle (deliver (Error c) s) = nextHandle s"
  "now (deliver (Error c) s) = now s"
  "socks (deliver (Error c) s) = socks s"
  "\<not> truthy (pingInterval (deliver (Error c) s))"
  "\<not> truthy (pongTimeoutId (deliver (Error c) s))"
proof -
  have "timers (stopPingPong (log ''WebSocket Error occurred.'' s)) = timers (stopPingPong s)"
    by (rule timers_stopPingPong_cong) (simp_all add: log_def Let_def)
  then show "timers (deliver (Error c) s) = timers (stopPingPong s)"
    by (simp add: deliver_def onerror_def)
  show "nextHandle (deliver (Error c) s) = nextHandle s" "now (deliver (Error c) s) = now s"
    "socks (deliver (Error c) s) = socks s"
    by (simp_all add: deliver_def onerror_def log_def Let_def)
  show "\<not> truthy (pingInterval (deliver (Error c) s))"
    "\<not> truthy (pongTimeoutId (deliver (Error c) s))"
    by (simp_all add: deliver_def onerror_def stopPingPong_not_truthy)
qed

lemma disconnect_click_fields:
  assumes "conn s = Some c" and "c < length (socks s)" and "rs c s = CONNECTING \<or> rs c s = OPEN"
  shows "conn (deliver Click_connect s) = None"
    and "closeReqs (deliver Click_connect s) = closeReqs s @ [(c, None)]"
    and "rs c (deliver Click_connect s) = CLOSING"
    and "length (socks (deliver Click_connect s)) = length (socks s)"
    and "timers (deliver Click_connect s) = timers (stopPingPong s)"
    and "nextHandle (deliver Click_connect s) = nextHandle s"
    and "now (deliver Click_connect s) = now s"
    and "\<not> truthy (pingInterval (deliver Click_connect s))"
    and "\<not> truthy (pongTimeoutId (deliver Click_connect s))"
proof -
  let ?m = "(ws_close c (log ''Disconnecting...'' s))\<lparr>conn := None\<rparr>"
  have d: "deliver Click_connect s = update_ui (update_ui (stopPingPong ?m))"
    using assms(1) by (simp add: deliver_def connect_click_def disconnect_def)
  have t: "timers (stopPingPong ?m) = timers (stopPingPong s)"
    by (rule timers_stopPingPong_cong)
       (simp_all add: ws_close_def start_close_def set_rs_def log_def Let_def)
  have u: "timers (update_ui x) = timers x" "pingInterval (update_ui x) = pingInterval x"
    "pongTimeoutId (update_ui x) = pongTimeoutId x" "conn (update_ui x) = conn x"
    "closeReqs (update_ui x) = closeReqs x" "socks (update_ui x) = socks x"
    "nextHandle (update_ui x) = nextHandle x" "now (update_ui x) = now x" for x
    by (simp_all add: update_ui_def)
  have r: "rs c (update_ui x) = rs c x" for x
    by (simp add: rs_def u)
  show "conn (deliver Click_connect s) = None"
    by (simp add: d u)
  show "closeReqs (deliver Click_connect s) = closeReqs s @ [(c, None)]"
    using assms(3)
    by (auto simp: d u ws_close_def start_close_def set_rs_def rs_def log_def Let_def)
  have "socks (deliver Click_connect s) = (socks s)[c := (socks s ! c)\<lparr>readyState := CLOSING\<rparr>]"
    using assms(3)
    by (auto simp: d u ws_close_def start_close_def set_rs_def rs_def log_def Let_def)
  then show "rs c (deliver Click_connect s) = CLOSING"
    and "length (socks (deliver Click_connect s)) = length (socks s)"
    using assms(2) by (simp_all add: rs_def)
  show "timers (deliver Click_connect s) = timers (stopPingPong s)"
    by (simp add: d u t)
  show "nextHandle (deliver Click_connect s) = nextHandle s"
    "now (deliver Click_connect s) = now s"
    by (simp_all add: d u ws_close_def start_close_def set_rs_def log_def Let_def)
  show "\<not> truthy (pingInterval (deliver Click_connect s))"
    "\<not> truthy (pongTimeoutId (deliver Click_connect s))"
    by (simp_all add: d u stopPingPong_not_truthy)
qed

text \<open>
  C5, on the script as it is, cause by cause. A close notification, and so a remote
  close, arms exactly one new timer: a one-shot timer due 5000 ms after the
  notification that calls \<open>connect()\<close>; nothing else is added and the delay does not
  depend on the state or on earlier attempts. An error notification followed by the
  close notification arms the same single timer, the error adding none. A user's
  disconnect of a connecting or open connection clears \<open>conn\<close>, calls \<open>close()\<close> on the
  WebSocket (which starts closing) and arms no timer; the close notification that
  follows arms the one reconnect timer. A pong timeout, however, does not disconnect:
  after an unanswered ping the callback throws at \<open>close(1008, ...)\<close>, no closing
  handshake is started, the WebSocket stays open, \<open>conn\<close> stays set, and the only
  pending timer is the next ping, so no reconnect is scheduled.
\<close>

theorem reconnect_by_cause:
  "(c < length (socks s) \<and> rs c s \<noteq> CLOSED \<longrightarrow>
      map_option (\<lambda>s'. (timers s', nextHandle s'))
        (exec [Close c code] s) =
        Some (timers (stopPingPong s) @
                [\<lparr>handle = nextHandle s, due = now s + 5000, period = None,
                  callback = Cb_connect\<rparr>],
              Suc (nextHandle s)) \<and>
      set (timers (stopPingPong s)) \<subseteq> set (timers s) \<and>
      map_option timers (exec [Error c, Close c code] s) =
        Some (timers (stopPingPong s) @
                [\<lparr>handle = nextHandle s, due = now s + 5000, period = None,
                  callback = Cb_connect\<rparr>])) \<and>
   run_callback Cb_connect s = connect s \<and>
   (conn s = Some c \<and> c < length (socks s) \<and> (rs c s = CONNECTING \<or> rs c s = OPEN) \<longrightarrow>
      map_option (\<lambda>s'. (conn s', closeReqs s', rs c s', timers s'))
        (exec [Click_connect] s) =
        Some (None, closeReqs s @ [(c, None)], CLOSING, timers (stopPingPong s)) \<and>
      map_option timers (exec [Click_connect, Close c code] s) =
        Some (timers (stopPingPong s) @
                [\<lparr>handle = nextHandle s, due = now s + 5000, period = None,
                  callback = Cb_connect\<rparr>])) \<and>
   (conn s = Some c \<and> c < length (socks s) \<and> rs c s = CONNECTING \<and> timers s = [] \<longrightarrow>
      map_option (\<lambda>s'. (now s', conn s', rs c s', closeReqs s', pending Cb_connect s', timers s'))
        (exec [Open c, Wait (now s + 59999), Tick, Wait (now s + 64999), Tick] s) =
        Some (now s + 65000, Some c, OPEN, closeReqs s, [],
              [\<lparr>handle = nextHandle s, due = now s + 120000, period = Some 60000,
                callback = Cb_sendPing\<rparr>]))"
proof -
  let ?R = "\<lparr>handle = nextHandle s, due = now s + 5000, period = None, callback = Cb_connect\<rparr>"
  have p1: "map_option (\<lambda>s'. (timers s', nextHandle s')) (exec [Close c code] s) =
        Some (timers (stopPingPong s) @ [?R], Suc (nextHandle s))"
    if "c < length (socks s)" "rs c s \<noteq> CLOSED"
    using that by (simp add: step_def enabled_def close_fields)
  have p1': "set (timers (stopPingPong s)) \<subseteq> set (timers s)"
    by (auto simp: timers_stopPingPong)
  have p2: "map_option timers (exec [Error c, Close c code] s) =
        Some (timers (stopPingPong s) @ [?R])"
    if "c < length (socks s)" "rs c s \<noteq> CLOSED"
  proof -
    let ?e = "deliver (Error c) s"
    have e1: "step (Error c) s = Some ?e"
      using that by (simp add: step_def enabled_def)
    have e2: "step (Close c code) ?e = Some (deliver (Close c code) ?e)"
      using that by (simp add: step_def enabled_def rs_def error_fields)
    have "timers (stopPingPong ?e) = timers ?e"
      by (rule timers_stopPingPong_quiet) (rule error_fields)+
    then show ?thesis
      by (simp add: e1 e2 close_fields error_fields)
  qed
  have p3: "run_callback Cb_connect s = connect s"
    by (simp add: run_callback_def)
  have p4: "map_option (\<lambda>s'. (conn s', closeReqs s', rs c s', timers s'))
        (exec [Click_connect] s) =
        Some (None, closeReqs s @ [(c, None)], CLOSING, timers (stopPingPong s)) \<and>
      map_option timers (exec [Click_connect, Close c code] s) =
        Some (timers (stopPingPong s) @ [?R])"
    if h: "conn s = Some c" "c < length (socks s)" "rs c s = CONNECTING \<or> rs c s = OPEN"
  proof -
    let ?d = "deliver Click_connect s"
    note f = disconnect_click_fields [OF h]
    have e1: "step Click_connect s = Some ?d"
      by (simp add: step_def enabled_def)
    have e2: "step (Close c code) ?d = Some (deliver (Close c code) ?d)"
      using h(2) by (simp add: step_def enabled_def f)
    have "timers (stopPingPong ?d) = timers ?d"
      by (rule timers_stopPingPong_quiet) (rule f)+
    then show ?thesis
      by (simp add: e1 e2 close_fields f)
  qed
  have p5: "map_option (\<lambda>s'. (now s', conn s', rs c s', closeReqs s', pending Cb_connect s', timers s'))
        (exec [Open c, Wait (now s + 59999), Tick, Wait (now s + 64999), Tick] s) =
        Some (now s + 65000, Some c, OPEN, closeReqs s, [],
              [\<lparr>handle = nextHandle s, due = now s + 120000, period = Some 60000,
                callback = Cb_sendPing\<rparr>])"
    if h: "conn s = Some c" "c < length (socks s)" "rs c s = CONNECTING" "timers s = []"
  proof -
    let ?s1 = "deliver (Open c) s"
    let ?s2 = "deliver (Wait (now s + 59999)) ?s1"
    let ?s3 = "deliver Tick ?s2"
    let ?s4 = "deliver (Wait (now s + 64999)) ?s3"
    let ?s5 = "deliver Tick ?s4"
    let ?i = "\<lparr>handle = nextHandle s, due = now s + 60000, period = Some 60000,
              callback = Cb_sendPing\<rparr>"
    let ?i' = "\<lparr>handle = nextHandle s, due = now s + 120000, period = Some 60000,
              callback = Cb_sendPing\<rparr>"
    let ?p = "\<lparr>handle = Suc (nextHandle s), due = now s + 65000, period = None,
              callback = Cb_pongTimeout\<rparr>"
    note f1 = open_fields [OF h(1,2,4)]
    have e1: "step (Open c) s = Some ?s1"
      using h by (simp add: step_def enabled_def)
    have e2: "step (Wait (now s + 59999)) ?s1 = Some ?s2"
      by (simp add: step_def enabled_def f1)
    have f2: "conn ?s2 = Some c" "rs c ?s2 = OPEN" "timers ?s2 = [?i]"
      "now ?s2 = now s + 59999" "closeReqs ?s2 = closeReqs s"
      "nextHandle ?s2 = Suc (nextHandle s)"
      by (simp_all add: wait_fields f1)
    have le2: "now ?s2 \<le> now s + 60000" by (simp add: f2)
    note f3 = tick_ping_fields [OF f2(1) f2(2) f2(3) le2]
    have e3: "step Tick ?s2 = Some ?s3"
      by (simp add: step_def enabled_def f2)
    have e4: "step (Wait (now s + 64999)) ?s3 = Some ?s4"
      by (simp add: step_def enabled_def f3)
    have f4: "conn ?s4 = Some c" "rs c ?s4 = OPEN"
      "timers ?s4 = [?i', ?p]" "now ?s4 = now s + 64999"
      "closeReqs ?s4 = closeReqs s" "\<not> pongReceived ?s4"
      by (simp_all add: wait_fields f3 f2 f1)
    have f5: "now ?s5 = now s + 65000" "closeReqs ?s5 = closeReqs s" "rs c ?s5 = OPEN"
      "conn ?s5 = Some c" "timers ?s5 = [?i']"
      using tick_pongTimeout_fields [OF f4(1) f4(2) f4(3) _ _ _ f4(6)]
      by (simp_all add: f4)
    have e5: "step Tick ?s4 = Some ?s5"
      by (simp add: step_def enabled_def f4)
    show ?thesis
      by (simp add: e1 e2 e3 e4 e5 f5 pending_def)
  qed
  show ?thesis
    using p1 p1' p2 p3 p4 p5 by blast
qed

theorem reconnect_by_cause_witness:
  "map_option (\<lambda>s. (conn s, rs 0 s, timers s))
     (exec [Click_connect, Open 0] (page_load False ''h'')) =
     Some (Some 0, OPEN,
           [\<lparr>handle = 1, due = 60000, period = Some 60000, callback = Cb_sendPing\<rparr>]) \<and>
   map_option (\<lambda>s. (timers s, hd (logdiv s)))
     (exec [Click_connect, Open 0, Close 0 1000] (page_load False ''h'')) =
     Some ([\<lparr>handle = 2, due = 5000, period = None, callback = Cb_connect\<rparr>],
           Text ''Disconnected. Code: 1000'') \<and>
   map_option timers
     (exec [Click_connect, Open 0, Error 0, Close 0 1006] (page_load False ''h'')) =
     Some [\<lparr>handle = 2, due = 5000, period = None, callback = Cb_connect\<rparr>] \<and>
   map_option (\<lambda>s. (conn s, closeReqs s, rs 0 s, timers s))
     (exec [Click_connect, Open 0, Click_connect] (page_load False ''h'')) =
     Some (None, [(0, None)], CLOSING, []) \<and>
   map_option (\<lambda>s. (conn s, timers s))
     (exec [Click_connect, Open 0, Click_connect, Close 0 1005] (page_load False ''h'')) =
     Some (None, [\<lparr>handle = 2, due = 5000, period = None, callback = Cb_connect\<rparr>]) \<and>
   map_option (\<lambda>s. (conn s, now s, timers s))
     (exec [Click_connect, Open 0, Click_connect, Close 0 1005, Tick] (page_load False ''h'')) =
     Some (Some 1, 5000, []) \<and>
   map_option timers
     (exec [Click_connect, Close 0 1006, Tick, Close 1 1006, Tick, Close 2 1006]
        (page_load False ''h'')) =
     Some [\<lparr>handle = 3, due = 15000, period = None, callback = Cb_connect\<rparr>] \<and>
   map_option (\<lambda>s. (now s, conn s, rs 0 s, closeReqs s, pending Cb_connect s, timers s))
     (exec [Click_connect, Open 0, Wait 59999, Tick, Wait 64999, Tick] (page_load False ''h'')) =
     Some (65000, Some 0, OPEN, [], [],
           [\<lparr>handle = 1, due = 120000, period = Some 60000, callback = Cb_sendPing\<rparr>])"
  using
    reconnect_by_cause [of 0 "the (exec [Click_connect, Open 0] (page_load False ''h''))" 1000]
    reconnect_by_cause [of 0 "the (exec [Click_connect] (page_load False ''h''))" 1006]
  by (simp add: run_defs pending_def dec.simps digit_def)

text \<open>
  C6. In every state the page can reach by any sequence of notifications, timer
  firings and user actions, a teardown leaves no heartbeat timer pending: right after
  a close notification, and right after a \<open>disconnect()\<close> of a present connection
  (called by the user or by \<open>connect()\<close>), neither the recurring ping timer nor a pong
  timeout is in the timer table.
\<close>

theorem teardown_cancels_heartbeat:
  "exec es (page_load secure h) = Some s \<Longrightarrow>
     heartbeat_timers (deliver (Close c code) s) = [] \<and>
     (conn s \<noteq> None \<longrightarrow>
        heartbeat_timers (disconnect s) = [] \<and>
        heartbeat_timers (connect s) = [] \<and>
        heartbeat_timers (deliver Click_connect s) = [])"
proof -
  assume "exec es (page_load secure h) = Some s"
  with hb_inv_page_load have inv: "hb_inv s" by (rule hb_inv_exec)
  then have "hb_inv (set_rs c CLOSED s)" by simp
  then have a: "heartbeat_timers (deliver (Close c code) s) = []"
    by (simp add: deliver_def heartbeat_timers_onclose)
  have b: "heartbeat_timers (disconnect s) = []" if "conn s \<noteq> None"
    using inv that by (rule heartbeat_timers_disconnect)
  have c: "heartbeat_timers (connect s) = []" if "conn s \<noteq> None"
    using b [OF that] by (simp add: connect_def Let_def heartbeat_timers_def log_def)
  have d: "heartbeat_timers (deliver Click_connect s) = []" if "conn s \<noteq> None"
    using b [OF that] that
    by (auto simp: deliver_def connect_click_def heartbeat_timers_def update_ui_def)
  show ?thesis using a b c d by blast
qed

theorem teardown_cancels_heartbeat_witness:
  "map_option (\<lambda>s. (conn s, heartbeat_timers s))
     (exec [Click_connect, Open 0, Tick] (page_load False ''h'')) =
     Some (Some 0,
       [\<lparr>handle = 1, due = 120000, period = Some 60000, callback = Cb_sendPing\<rparr>,
        \<lparr>handle = 2, due = 65000, period = None, callback = Cb_pongTimeout\<rparr>]) \<and>
   map_option heartbeat_timers
     (exec [Click_connect, Open 0, Tick, Close 0 1006] (page_load False ''h'')) = Some [] \<and>
   map_option heartbeat_timers
     (exec [Click_connect, Open 0, Tick, Click_connect] (page_load False ''h'')) = Some [] \<and>
   map_option (heartbeat_timers \<circ> disconnect)
     (exec [Click_connect, Open 0, Tick] (page_load False ''h'')) = Some [] \<and>
   map_option (heartbeat_timers \<circ> connect)
     (exec [Click_connect, Open 0, Tick] (page_load False ''h'')) = Some []"
  using
    teardown_cancels_heartbeat [of "[Click_connect, Open 0, Tick]" False "''h''"
      "the (exec [Click_connect, Open 0, Tick] (page_load False ''h''))" 0 1006]
  by (simp add: run_defs heartbeat_timers_def)

subsection \<open>Notifications of a transport that is no longer current\<close>

text \<open>
  C1 fails on the script. The user connects while a reconnect is scheduled, and the
  scheduled \<open>connect()\<close> then replaces that connection: socket 1 is closed by the script
  and socket 2 is current. Socket 2 opens and its heartbeat starts. The late close
  notification of socket 1 then clears \<open>conn\<close>, cancels the heartbeat of socket 2 and
  schedules another reconnect.
\<close>

theorem stale_close_counterexample:
  "map_option conn
     (exec [Click_connect, Close 0 1006, Click_connect, Tick, Open 2] (page_load False ''h'')) =
     Some (Some 2) \<and>
   map_option pingInterval
     (exec [Click_connect, Close 0 1006, Click_connect, Tick, Open 2] (page_load False ''h'')) =
     Some (Some 2) \<and>
   map_option timers
     (exec [Click_connect, Close 0 1006, Click_connect, Tick, Open 2] (page_load False ''h'')) =
     Some [\<lparr>handle = 2, due = 65000, period = Some 60000, callback = Cb_sendPing\<rparr>] \<and>
   map_option conn
     (exec [Click_connect, Close 0 1006, Click_connect, Tick, Open 2, Close 1 1006]
        (page_load False ''h'')) = Some None \<and>
   map_option pingInterval
     (exec [Click_connect, Close 0 1006, Click_connect, Tick, Open 2, Close 1 1006]
        (page_load False ''h'')) = Some None \<and>
   map_option timers
     (exec [Click_connect, Close 0 1006, Click_connect, Tick, Open 2, Close 1 1006]
        (page_load False ''h'')) =
     Some [\<lparr>handle = 3, due = 10000, period = None, callback = Cb_connect\<rparr>]"
  by (simp add: run_defs)

text \<open>
  C1, as the script has it. No handler looks at which WebSocket raised the
  notification. A close notification of a socket other than the current one clears
  \<open>conn\<close>, shows the page as disconnected, cancels the heartbeat timers and arms the
  reconnect timer 5000 ms later: it leaves the same state as the close notification
  of the current socket, but for which socket is marked closed. The same holds for
  open notifications, and message and error notifications of any two sockets leave
  the same state.
\<close>

theorem stale_close_handled:
  "conn s = Some c' \<Longrightarrow> c \<noteq> c' \<Longrightarrow> step (Close c code) s = Some s' \<Longrightarrow>
     conn s' = None \<and>
     status s' = ''disconnected'' \<and>
     timers s' = timers (stopPingPong s) @
       [\<lparr>handle = nextHandle s, due = now s + 5000, period = None, callback = Cb_connect\<rparr>] \<and>
     (hb_inv s \<longrightarrow> heartbeat_timers s' = []) \<and>
     s' = (deliver (Close c' code) s)\<lparr>socks := socks s'\<rparr> \<and>
     deliver (Message c d) s = deliver (Message c' d) s \<and>
     deliver (Error c) s = deliver (Error c') s \<and>
     deliver (Open c) s = (deliver (Open c') s)\<lparr>socks := socks (deliver (Open c) s)\<rparr>"
proof -
  assume "step (Close c code) s = Some s'"
  then have s': "s' = onclose code (set_rs c CLOSED s)"
    by (simp add: step_def deliver_def split: if_splits)
  have a: "conn s' = None" "status s' = ''disconnected''"
    unfolding s'
    by (simp_all add: onclose_def Let_def setTimeout_def setTimer_def update_ui_def)
  have b: "timers s' = timers (stopPingPong s) @
       [\<lparr>handle = nextHandle s, due = now s + 5000, period = None, callback = Cb_connect\<rparr>]"
    unfolding s' by (simp add: timers_onclose timers_stopPingPong)
  have c: "heartbeat_timers s' = []" if "hb_inv s"
    unfolding s' using that by (simp add: heartbeat_timers_onclose)
  have d: "s' = (deliver (Close c' code) s)\<lparr>socks := socks s'\<rparr>"
    unfolding s' by (simp add: deliver_def set_rs_def onclose_socks)
  have e: "deliver (Message c d) s = deliver (Message c' d) s"
    "deliver (Error c) s = deliver (Error c') s"
    by (simp_all add: deliver_def)
  have f: "deliver (Open c) s = (deliver (Open c') s)\<lparr>socks := socks (deliver (Open c) s)\<rparr>"
    by (simp add: deliver_def set_rs_def onopen_socks)
  show ?thesis using a b c d e f by blast
qed

theorem stale_close_handled_witness:
  "map_option (\<lambda>s. (conn s, map readyState (socks s), status s, heartbeat_timers s))
     (exec [Click_connect, Close 0 1006, Click_connect, Tick, Open 2] (page_load False ''h'')) =
     Some (Some 2, [CLOSED, CLOSING, OPEN], ''connected'',
           [\<lparr>handle = 2, due = 65000, period = Some 60000, callback = Cb_sendPing\<rparr>]) \<and>
   map_option (\<lambda>s. (conn s, status s, heartbeat_timers s, timers s))
     (exec [Click_connect, Close 0 1006, Click_connect, Tick, Open 2, Close 1 1006]
        (page_load False ''h'')) =
     Some (None, ''disconnected'', [],
           [\<lparr>handle = 3, due = 10000, period = None, callback = Cb_connect\<rparr>])"
  using
    stale_close_handled [of
      "the (exec [Click_connect, Close 0 1006, Click_connect, Tick, Open 2] (page_load False ''h''))"
      2 1 1006
      "the (exec [Click_connect, Close 0 1006, Click_connect, Tick, Open 2, Close 1 1006]
              (page_load False ''h''))" "''x''"]
  by (simp add: run_defs heartbeat_timers_def)

section \<open>The two pong variables\<close>

text \<open>
  C7 fails on the script. After a ping \<open>pongTimeoutId\<close> holds a handle while
  \<open>pongReceived\<close> is false; after the pong that answers it \<open>pongTimeoutId\<close> still holds
  that handle while \<open>pongReceived\<close> is true. So the handle is non-null both while
  \<open>pongReceived\<close> is false and while it is true. And the two are not cleared
  together: stopping the heartbeat after an unanswered ping sets \<open>pongTimeoutId\<close> to
  \<open>null\<close> and leaves \<open>pongReceived\<close> false.
\<close>

theorem pong_fields_counterexample:
  "map_option pongTimeoutId (exec [Click_connect, Open 0, Tick] (page_load False ''h'')) =
     Some (Some 2) \<and>
   map_option pongReceived (exec [Click_connect, Open 0, Tick] (page_load False ''h'')) =
     Some False \<and>
   map_option pongTimeoutId
     (exec [Click_connect, Open 0, Tick, Message 0 ''pong''] (page_load False ''h'')) =
     Some (Some 2) \<and>
   map_option pongReceived
     (exec [Click_connect, Open 0, Tick, Message 0 ''pong''] (page_load False ''h'')) =
     Some True \<and>
   map_option pongTimeoutId
     (exec [Click_connect, Open 0, Tick, Error 0] (page_load False ''h'')) = Some None \<and>
   map_option pongReceived
     (exec [Click_connect, Open 0, Tick, Error 0] (page_load False ''h'')) = Some False"
  by (simp add: run_defs)

text \<open>
  C7, as the script has it. In every state the page can reach, a pong timeout is
  pending only while \<open>pongReceived\<close> is false, and \<open>pongTimeoutId\<close> then holds its
  handle. The variables themselves are written separately: \<open>sendPing\<close> on an open
  connection stores a fresh handle and sets \<open>pongReceived\<close> to false; a pong sets
  \<open>pongReceived\<close> to true and keeps the handle (only the timer is cancelled);
  \<open>stopPingPong\<close> sets a truthy \<open>pongTimeoutId\<close> to \<open>null\<close> and does not touch
  \<open>pongReceived\<close>.
\<close>

theorem pong_timer_pending_only_unanswered:
  "(exec es (page_load secure h) = Some s \<longrightarrow>
      (\<forall>tm \<in> set (timers s). callback tm = Cb_pongTimeout \<longrightarrow>
         pongTimeoutId s = Some (handle tm) \<and> \<not> pongReceived s)) \<and>
   (conn s = Some c \<and> rs c s = OPEN \<longrightarrow>
      pongTimeoutId (sendPing s) = Some (nextHandle s) \<and> \<not> pongReceived (sendPing s)) \<and>
   pongTimeoutId (onmessage ''pong'' s) = pongTimeoutId s \<and>
   pongReceived (onmessage ''pong'' s) \<and>
   pongTimeoutId (stopPingPong s) = (if truthy (pongTimeoutId s) then None else pongTimeoutId s) \<and>
   pongReceived (stopPingPong s) = pongReceived s"
proof -
  have a: "pongTimeoutId s = Some (handle tm) \<and> \<not> pongReceived s"
    if "exec es (page_load secure h) = Some s" "tm \<in> set (timers s)"
       "callback tm = Cb_pongTimeout" for tm
  proof -
    from script_inv_page_load that(1) have "script_inv s" by (rule script_inv_exec)
    with that(2,3) show ?thesis by (auto simp: script_inv_def hb_inv_def pong_inv_def)
  qed
  have b: "pongTimeoutId (sendPing s) = Some (nextHandle s) \<and> \<not> pongReceived (sendPing s)"
    if "conn s = Some c \<and> rs c s = OPEN"
    using that by (simp add: sendPing_def setTimeout_def setTimer_def Let_def)
  have c: "pongTimeoutId (onmessage ''pong'' s) = pongTimeoutId s"
    "pongReceived (onmessage ''pong'' s)"
    by (simp_all add: onmessage_def Let_def clearTimer_def log_def split: option.splits)
  show ?thesis
    using a b c by (simp add: stopPingPong_handles)
qed

theorem pong_timer_pending_only_unanswered_witness:
  "map_option (\<lambda>s. (timers s, pongTimeoutId s, pongReceived s))
     (exec [Click_connect, Open 0, Tick] (page_load False ''h'')) =
     Some ([\<lparr>handle = 1, due = 120000, period = Some 60000, callback = Cb_sendPing\<rparr>,
            \<lparr>handle = 2, due = 65000, period = None, callback = Cb_pongTimeout\<rparr>],
           Some 2, False) \<and>
   map_option (\<lambda>s. (conn s, rs 0 s, nextHandle s))
     (exec [Click_connect, Open 0] (page_load False ''h'')) = Some (Some 0, OPEN, 2) \<and>
   map_option (\<lambda>s. (pongTimeoutId s, pongReceived s))
     (exec [Click_connect, Open 0, Tick, Message 0 ''pong''] (page_load False ''h'')) =
     Some (Some 2, True)"
  using
    pong_timer_pending_only_unanswered [of "[Click_connect, Open 0, Tick]" False "''h''"
      "the (exec [Click_connect, Open 0, Tick] (page_load False ''h''))" 0]
    pong_timer_pending_only_unanswered [of "[]" False "''h''"
      "the (exec [Click_connect, Open 0] (page_load False ''h''))" 0]
  by (simp add: run_defs)

section \<open>Transport errors\<close>

text \<open>
  C8 fails on the script. With the recurring ping timer and a pong timeout pending,
  an error notification alone empties the timer table and clears \<open>pingInterval\<close>; the
  connection stays in place.
\<close>

theorem error_stops_heartbeat_counterexample:
  "map_option timers (exec [Click_connect, Open 0, Tick] (page_load False ''h'')) =
     Some [\<lparr>handle = 1, due = 120000, period = Some 60000, callback = Cb_sendPing\<rparr>,
           \<lparr>handle = 2, due = 65000, period = None, callback = Cb_pongTimeout\<rparr>] \<and>
   map_option timers (exec [Click_connect, Open 0, Tick, Error 0] (page_load False ''h'')) =
     Some [] \<and>
   map_option pingInterval (exec [Click_connect, Open 0, Tick, Error 0] (page_load False ''h'')) =
     Some None \<and>
   map_option conn (exec [Click_connect, Open 0, Tick, Error 0] (page_load False ''h'')) =
     Some (Some 0)"
  by (simp add: run_defs)

text \<open>
  C8, as the script has it. An error notification puts the line
  \<open>WebSocket Error occurred.\<close> at the head of the log and stops the heartbeat by
  itself: the timers named by \<open>pingInterval\<close> and \<open>pongTimeoutId\<close> are cancelled and
  both variables are set to \<open>null\<close>, so that with the timers owned as \<open>hb_inv\<close> says no
  heartbeat timer is pending afterwards. Nothing else changes: \<open>conn\<close> and the shown
  status stay, and no timer is added, so no reconnect is scheduled by the error.
\<close>

theorem onerror_effect:
  "logdiv (onerror s) =
     Text ''WebSocket Error occurred.'' #
       (if length (logdiv s) < 100 then logdiv s else butlast (logdiv s)) \<and>
   onerror s =
     s\<lparr>logdiv := logdiv (onerror s), timers := timers (stopPingPong s),
       pingInterval := (if truthy (pingInterval s) then None else pingInterval s),
       pongTimeoutId := (if truthy (pongTimeoutId s) then None else pongTimeoutId s)\<rparr> \<and>
   set (timers (stopPingPong s)) \<subseteq> set (timers s) \<and>
   (hb_inv s \<longrightarrow> heartbeat_timers (onerror s) = [])"
proof -
  have a: "logdiv (onerror s) = logdiv (log ''WebSocket Error occurred.'' s)"
    by (simp add: onerror_def)
  have h: "html ''WebSocket Error occurred.'' = Text ''WebSocket Error occurred.''"
    by (simp add: html_def plain_text_def)
  have t: "timers (onerror s) = timers (stopPingPong s)"
    by (simp add: onerror_def timers_stopPingPong log_def Let_def)
  have b: "onerror s =
     s\<lparr>logdiv := logdiv (onerror s), timers := timers (stopPingPong s),
       pingInterval := (if truthy (pingInterval s) then None else pingInterval s),
       pongTimeoutId := (if truthy (pongTimeoutId s) then None else pongTimeoutId s)\<rparr>"
    by (rule state.equality)
       (simp_all add: t, simp_all add: onerror_def stopPingPong_rest stopPingPong_handles,
        simp_all add: log_def Let_def)
  have c: "set (timers (stopPingPong s)) \<subseteq> set (timers s)"
    by (auto simp: timers_stopPingPong)
  have d: "heartbeat_timers (onerror s) = []" if "hb_inv s"
    using heartbeat_timers_stop [of "log ''WebSocket Error occurred.'' s"] that
    by (simp add: onerror_def)
  show ?thesis
    using b c d unfolding a logdiv_log h by blast
qed

theorem onerror_effect_witness:
  "map_option (\<lambda>s. (conn s, timers s, pingInterval s, pongTimeoutId s, status s, logdiv s))
     (exec [Click_connect, Open 0, Tick, Error 0] (page_load False ''h'')) =
     Some (Some 0, [], None, None, ''connected'',
           [Text ''WebSocket Error occurred.'', Text ''Connected.'', Text ''Connecting...''])"
  using onerror_effect [of "the (exec [Click_connect, Open 0, Tick] (page_load False ''h''))"]
  by (simp add: run_defs)

end
